theory Spec2Isabelle
  imports Main "HOL-Library.Word"
begin

unbundle bit_operations_syntax

section \<open>Python values and exceptions\<close>

text \<open>
  The client of \<^verbatim>\<open>usbmux.py\<close> handles integers, strings, byte strings and
  dictionaries keyed by strings. A Python \<^verbatim>\<open>str\<close> is kept as its UTF-8 bytes
  (a \<open>string\<close>), a dictionary as a map, so that equality of two values is
  Python's \<^verbatim>\<open>==\<close> on them.
\<close>

type_synonym byte = "8 word"

datatype pyval =
    VInt int
  | VStr string
  | VBytes "byte list"
  | VDict "string \<Rightarrow> pyval option"

type_synonym pydict = "string \<Rightarrow> pyval option"

text \<open>
  Exceptions are values. An f-string message is kept as the text before its first
  interpolation, with the interpolated values in order beside it:
  \<^verbatim>\<open>MuxError(f"Reply tag mismatch: expected {mytag}, got {recvtag}")\<close> is
  \<open>MuxError ''Reply tag mismatch: expected '' [VInt mytag, VInt recvtag]\<close>.
  \<open>MuxVersionError\<close> is a subclass of \<open>MuxError\<close> in the source; the only handler
  that tells them apart catches \<open>MuxVersionError\<close>, so the two are separate
  constructors. The others are the built-in exceptions the code can run into.
\<close>

datatype error =
    MuxError string "pyval list"
  | MuxVersionError string "pyval list"
  | ValueError string "pyval list"
  | PyException string
  | StructError
  | KeyError string
  | IndexError
  | TypeError
  | UnicodeDecodeError
  | OSError
  | PlistError

section \<open>The socket and \<^verbatim>\<open>SafeStreamSocket\<close>\<close>

text \<open>
  The operating system's stream socket, as far as the client can observe it:
  \<open>inbound\<close> holds the segments that will arrive, in order (one \<^verbatim>\<open>sock.recv\<close>
  never crosses a segment boundary; no segment left means the peer has closed and
  \<^verbatim>\<open>sock.recv\<close> returns \<^verbatim>\<open>b''\<close>); \<open>outbound\<close> is everything written so far;
  \<open>accepts\<close> says how many bytes each coming \<^verbatim>\<open>sock.send\<close> takes at most (all of
  them once the list is used up); \<open>closed\<close> is set by \<^verbatim>\<open>sock.close()\<close>, after
  which every call raises \<^verbatim>\<open>OSError\<close>.
\<close>

record sock =
  inbound :: "byte list list"
  outbound :: "byte list"
  accepts :: "nat list"
  closed :: bool

definition sock_recv :: "sock \<Rightarrow> nat \<Rightarrow> error + (byte list \<times> sock)" where
  "sock_recv s bufsize =
     (if closed s then Inl OSError
      else case inbound s of
             [] \<Rightarrow> Inr ([], s)
           | seg # rest \<Rightarrow>
               Inr (take bufsize seg,
                    s\<lparr>inbound := (if length seg \<le> bufsize then rest
                                  else drop bufsize seg # rest)\<rparr>))"

definition sock_send :: "sock \<Rightarrow> byte list \<Rightarrow> error + (nat \<times> sock)" where
  "sock_send s data =
     (if closed s then Inl OSError
      else let k = (case accepts s of [] \<Rightarrow> length data | a # _ \<Rightarrow> min a (length data))
           in Inr (k, s\<lparr>outbound := outbound s @ take k data, accepts := tl (accepts s)\<rparr>))"

definition sock_close :: "sock \<Rightarrow> sock" where
  "sock_close s = s\<lparr>closed := True\<rparr>"

text \<open>
  \<^verbatim>\<open>SafeStreamSocket.send\<close>: the loop over \<^verbatim>\<open>totalsent\<close>. Every function that can
  raise returns its result beside the state it leaves behind, since what it did
  before raising stays done.
\<close>

function send_loop :: "sock \<Rightarrow> byte list \<Rightarrow> nat \<Rightarrow> (error + unit) \<times> sock" where
  "send_loop s msg totalsent =
     (if totalsent < length msg then
        (case sock_send s (drop totalsent msg) of
           Inl e \<Rightarrow> (Inl e, s)
         | Inr (sent, s') \<Rightarrow>
             if sent = 0 then (Inl (MuxError ''socket connection broken'' []), s')
             else send_loop s' msg (totalsent + sent))
      else (Inr (), s))"
  by pat_completeness auto
termination
  by (relation "measure (\<lambda>(s, msg, totalsent). length msg - totalsent)") auto

definition send :: "sock \<Rightarrow> byte list \<Rightarrow> (error + unit) \<times> sock" where
  "send s msg = send_loop s msg 0"

text \<open>
  \<^verbatim>\<open>SafeStreamSocket.recv\<close>: the loop over \<^verbatim>\<open>msg\<close>. The requested size \<open>sz\<close> is a Python integer
  (\<^verbatim>\<open>getpacket\<close> passes \<^verbatim>\<open>dlen - 4\<close>, which is negative for a short length field).
\<close>

function recv_loop :: "sock \<Rightarrow> int \<Rightarrow> byte list \<Rightarrow> (error + byte list) \<times> sock" where
  "recv_loop s sz msg =
     (if int (length msg) < sz then
        (case sock_recv s (nat (sz - int (length msg))) of
           Inl e \<Rightarrow> (Inl e, s)
         | Inr (chunk, s') \<Rightarrow>
             if chunk = [] then (Inl (MuxError ''socket connection broken'' []), s')
             else recv_loop s' sz (msg @ chunk))
      else (Inr msg, s))"
  by pat_completeness auto
termination
  by (relation "measure (\<lambda>(s, sz, msg). nat (sz - int (length msg)))") auto

definition recv :: "sock \<Rightarrow> int \<Rightarrow> (error + byte list) \<times> sock" where
  "recv s sz = recv_loop s sz []"

section \<open>The host: byte order and \<^verbatim>\<open>plistlib\<close>\<close>

text \<open>
  What the program takes from the machine and the standard library. \<^verbatim>\<open>struct\<close>
  formats without a prefix use the machine's byte order, so it is a parameter.
  \<^verbatim>\<open>plistlib.dumps\<close> and \<^verbatim>\<open>plistlib.loads\<close> are library code outside the
  repository and are parameters too; \<open>haveplist\<close> is the flag the import sets.
\<close>

datatype byteorder = LittleEndian | BigEndian

record host =
  endian :: byteorder
  haveplist :: bool
  dumps :: "pydict \<Rightarrow> error + byte list"
  loads :: "byte list \<Rightarrow> error + pyval"

section \<open>\<^verbatim>\<open>struct.pack\<close> and \<^verbatim>\<open>struct.unpack\<close> in native mode\<close>

text \<open>
  The format characters the source uses: \<^verbatim>\<open>I\<close> (unsigned int, 4 bytes),
  \<^verbatim>\<open>H\<close> (unsigned short, 2 bytes) and \<^verbatim>\<open>256s\<close> (a byte string of the given
  length). A format string is the list of its items: \<^verbatim>\<open>"IH256sHI"\<close> is
  \<open>[FmtI, FmtH, FmtS 256, FmtH, FmtI]\<close>. Native mode aligns every item to its own
  size by padding in front of it, and adds nothing after the last item.
\<close>

datatype fmt = FmtI | FmtH | FmtS nat

fun fmt_size :: "fmt \<Rightarrow> nat" where
  "fmt_size FmtI = 4"
| "fmt_size FmtH = 2"
| "fmt_size (FmtS n) = n"

fun fmt_align :: "fmt \<Rightarrow> nat" where
  "fmt_align FmtI = 4"
| "fmt_align FmtH = 2"
| "fmt_align (FmtS n) = 1"

definition align_up :: "nat \<Rightarrow> nat \<Rightarrow> nat" where
  "align_up off a = ((off + a - 1) div a) * a"

definition uint_bytes :: "byteorder \<Rightarrow> nat \<Rightarrow> nat \<Rightarrow> byte list" where
  "uint_bytes bo n x =
     (let le = map (\<lambda>i. of_nat (x div 256 ^ i)) [0..<n]
      in case bo of LittleEndian \<Rightarrow> le | BigEndian \<Rightarrow> rev le)"

fun le_uint :: "byte list \<Rightarrow> nat" where
  "le_uint [] = 0"
| "le_uint (b # bs) = unat b + 256 * le_uint bs"

definition bytes_uint :: "byteorder \<Rightarrow> byte list \<Rightarrow> nat" where
  "bytes_uint bo bs = le_uint (case bo of LittleEndian \<Rightarrow> bs | BigEndian \<Rightarrow> rev bs)"

fun pack_field :: "byteorder \<Rightarrow> fmt \<Rightarrow> pyval \<Rightarrow> error + byte list" where
  "pack_field bo FmtI (VInt x) =
     (if 0 \<le> x \<and> x < 2 ^ 32 then Inr (uint_bytes bo 4 (nat x)) else Inl StructError)"
| "pack_field bo FmtH (VInt x) =
     (if 0 \<le> x \<and> x < 2 ^ 16 then Inr (uint_bytes bo 2 (nat x)) else Inl StructError)"
| "pack_field bo (FmtS n) (VBytes b) = Inr (take n b @ replicate (n - length b) 0)"
| "pack_field bo f v = Inl StructError"

fun struct_pack_from :: "byteorder \<Rightarrow> nat \<Rightarrow> fmt list \<Rightarrow> pyval list \<Rightarrow> error + byte list" where
  "struct_pack_from bo off [] [] = Inr []"
| "struct_pack_from bo off (f # fs) (v # vs) =
     (let pad = align_up off (fmt_align f) - off
      in case pack_field bo f v of
           Inl e \<Rightarrow> Inl e
         | Inr b \<Rightarrow>
             (case struct_pack_from bo (off + pad + fmt_size f) fs vs of
                Inl e \<Rightarrow> Inl e
              | Inr r \<Rightarrow> Inr (replicate pad 0 @ b @ r)))"
| "struct_pack_from bo off fs vs = Inl StructError"

definition struct_pack :: "byteorder \<Rightarrow> fmt list \<Rightarrow> pyval list \<Rightarrow> error + byte list" where
  "struct_pack bo fs vs = struct_pack_from bo 0 fs vs"

fun calcsize_from :: "nat \<Rightarrow> fmt list \<Rightarrow> nat" where
  "calcsize_from off [] = off"
| "calcsize_from off (f # fs) = calcsize_from (align_up off (fmt_align f) + fmt_size f) fs"

definition calcsize :: "fmt list \<Rightarrow> nat" where
  "calcsize fs = calcsize_from 0 fs"

fun unpack_field :: "byteorder \<Rightarrow> fmt \<Rightarrow> byte list \<Rightarrow> pyval" where
  "unpack_field bo FmtI bs = VInt (int (bytes_uint bo bs))"
| "unpack_field bo FmtH bs = VInt (int (bytes_uint bo bs))"
| "unpack_field bo (FmtS n) bs = VBytes bs"

fun struct_unpack_from :: "byteorder \<Rightarrow> nat \<Rightarrow> fmt list \<Rightarrow> byte list \<Rightarrow> pyval list" where
  "struct_unpack_from bo off [] data = []"
| "struct_unpack_from bo off (f # fs) data =
     (let at = align_up off (fmt_align f)
      in unpack_field bo f (take (fmt_size f) (drop at data))
         # struct_unpack_from bo (at + fmt_size f) fs data)"

definition struct_unpack :: "byteorder \<Rightarrow> fmt list \<Rightarrow> byte list \<Rightarrow> error + pyval list" where
  "struct_unpack bo fs data =
     (if length data \<noteq> calcsize fs then Inl StructError
      else Inr (struct_unpack_from bo 0 fs data))"

section \<open>Python's built-in operations the source relies on\<close>

text \<open>
  Tuple unpacking raises \<^verbatim>\<open>ValueError\<close> when the number of values is wrong, an
  index out of range raises \<^verbatim>\<open>IndexError\<close> (negative indices count from the end),
  a missing key raises \<^verbatim>\<open>KeyError\<close>, and subscripting a value that is no
  dictionary with a string raises \<^verbatim>\<open>TypeError\<close>.
\<close>

fun first_item :: "'a list \<Rightarrow> error + 'a" where
  "first_item [] = Inl IndexError"
| "first_item (x # xs) = Inr x"

fun tuple3 :: "'a list \<Rightarrow> error + ('a \<times> 'a \<times> 'a)" where
  "tuple3 [a, b, c] = Inr (a, b, c)"
| "tuple3 xs = Inl (ValueError ''wrong number of values to unpack'' [])"

fun tuple5 :: "'a list \<Rightarrow> error + ('a \<times> 'a \<times> 'a \<times> 'a \<times> 'a)" where
  "tuple5 [a, b, c, d, e] = Inr (a, b, c, d, e)"
| "tuple5 xs = Inl (ValueError ''wrong number of values to unpack'' [])"

definition py_index :: "'a list \<Rightarrow> int \<Rightarrow> error + 'a" where
  "py_index xs i =
     (if 0 \<le> i \<and> i < int (length xs) then Inr (xs ! nat i)
      else if i < 0 \<and> - int (length xs) \<le> i then Inr (xs ! nat (int (length xs) + i))
      else Inl IndexError)"

fun getitem :: "pyval \<Rightarrow> string \<Rightarrow> error + pyval" where
  "getitem (VDict d) k = (case d k of None \<Rightarrow> Inl (KeyError k) | Some v \<Rightarrow> Inr v)"
| "getitem v k = Inl TypeError"

text \<open>
  \<^verbatim>\<open>bytes.decode()\<close> is strict UTF-8: it raises \<^verbatim>\<open>UnicodeDecodeError\<close> on anything
  but well-formed UTF-8 (no overlong forms, no surrogates, nothing above U+10FFFF).
  The decoded string is kept as the same bytes.
\<close>

definition utf8_cont :: "nat \<Rightarrow> bool" where
  "utf8_cont b = (0x80 \<le> b \<and> b \<le> 0xBF)"

fun utf8_valid :: "nat list \<Rightarrow> bool" where
  "utf8_valid [] = True"
| "utf8_valid [a] = (a < 0x80)"
| "utf8_valid [a, b] =
     (if a < 0x80 then utf8_valid [b] else 0xC2 \<le> a \<and> a \<le> 0xDF \<and> utf8_cont b)"
| "utf8_valid [a, b, c] =
     (if a < 0x80 then utf8_valid [b, c]
      else if 0xC2 \<le> a \<and> a \<le> 0xDF then utf8_cont b \<and> utf8_valid [c]
      else (a = 0xE0 \<and> 0xA0 \<le> b \<and> b \<le> 0xBF
            \<or> (0xE1 \<le> a \<and> a \<le> 0xEC \<or> a = 0xEE \<or> a = 0xEF) \<and> utf8_cont b
            \<or> a = 0xED \<and> 0x80 \<le> b \<and> b \<le> 0x9F) \<and> utf8_cont c)"
| "utf8_valid (a # b # c # d # r) =
     (if a < 0x80 then utf8_valid (b # c # d # r)
      else if 0xC2 \<le> a \<and> a \<le> 0xDF then utf8_cont b \<and> utf8_valid (c # d # r)
      else if 0xE0 \<le> a \<and> a \<le> 0xEF then
        (a = 0xE0 \<and> 0xA0 \<le> b \<and> b \<le> 0xBF
         \<or> (0xE1 \<le> a \<and> a \<le> 0xEC \<or> a = 0xEE \<or> a = 0xEF) \<and> utf8_cont b
         \<or> a = 0xED \<and> 0x80 \<le> b \<and> b \<le> 0x9F) \<and> utf8_cont c \<and> utf8_valid (d # r)
      else (a = 0xF0 \<and> 0x90 \<le> b \<and> b \<le> 0xBF
            \<or> 0xF1 \<le> a \<and> a \<le> 0xF3 \<and> utf8_cont b
            \<or> a = 0xF4 \<and> 0x80 \<le> b \<and> b \<le> 0x8F) \<and> utf8_cont c \<and> utf8_cont d
           \<and> utf8_valid r)"

definition bytes_decode :: "byte list \<Rightarrow> error + string" where
  "bytes_decode bs =
     (if utf8_valid (map unat bs) then Inr (map (\<lambda>b. char_of (unat b)) bs)
      else Inl UnicodeDecodeError)"

section \<open>The dictionaries of the program\<close>

text \<open>
  \<^verbatim>\<open>PlistProtocol.sendpacket\<close> assigns into the dictionary it is given, so the
  payload dictionaries live in a store and are passed by reference. A parameter
  default \<^verbatim>\<open>payload={}\<close> is one dictionary made when the function is defined and
  used by every call that leaves the argument out: the three of them have fixed
  references. An argument left out is \<open>None\<close>.
\<close>

record heap =
  dicts :: "nat \<Rightarrow> pydict"
  fresh :: nat

definition BinaryProtocol_sendpacket_default :: nat where
  "BinaryProtocol_sendpacket_default = 0"

definition PlistProtocol_sendpacket_default :: nat where
  "PlistProtocol_sendpacket_default = 1"

definition exchange_default :: nat where
  "exchange_default = 2"

definition heap_init :: heap where
  "heap_init = \<lparr>dicts = (\<lambda>r. Map.empty), fresh = 3\<rparr>"

definition new_dict :: "heap \<Rightarrow> pydict \<Rightarrow> nat \<times> heap" where
  "new_dict hp d = (fresh hp, hp\<lparr>dicts := (dicts hp)(fresh hp := d), fresh := Suc (fresh hp)\<rparr>)"

definition setitem :: "heap \<Rightarrow> nat \<Rightarrow> string \<Rightarrow> pyval \<Rightarrow> heap" where
  "setitem hp r k v = hp\<lparr>dicts := (dicts hp)(r := (dicts hp r)(k \<mapsto> v))\<rparr>"

section \<open>\<^verbatim>\<open>BinaryProtocol\<close> and \<^verbatim>\<open>PlistProtocol\<close>\<close>

datatype protoclass = BinaryProtocol | PlistProtocol

fun TYPE_RESULT :: "protoclass \<Rightarrow> pyval" where
  "TYPE_RESULT BinaryProtocol = VInt 1"
| "TYPE_RESULT PlistProtocol = VStr ''Result''"

fun TYPE_CONNECT :: "protoclass \<Rightarrow> pyval" where
  "TYPE_CONNECT BinaryProtocol = VInt 2"
| "TYPE_CONNECT PlistProtocol = VStr ''Connect''"

fun TYPE_LISTEN :: "protoclass \<Rightarrow> pyval" where
  "TYPE_LISTEN BinaryProtocol = VInt 3"
| "TYPE_LISTEN PlistProtocol = VStr ''Listen''"

fun TYPE_DEVICE_ADD :: "protoclass \<Rightarrow> pyval" where
  "TYPE_DEVICE_ADD BinaryProtocol = VInt 4"
| "TYPE_DEVICE_ADD PlistProtocol = VStr ''Attached''"

fun TYPE_DEVICE_REMOVE :: "protoclass \<Rightarrow> pyval" where
  "TYPE_DEVICE_REMOVE BinaryProtocol = VInt 5"
| "TYPE_DEVICE_REMOVE PlistProtocol = VStr ''Detached''"

definition TYPE_PLIST :: pyval where
  "TYPE_PLIST = VInt 8"

fun VERSION :: "protoclass \<Rightarrow> int" where
  "VERSION BinaryProtocol = 0"
| "VERSION PlistProtocol = 1"

text \<open>
  A protocol object: its class, the \<^verbatim>\<open>SafeStreamSocket\<close> it was made with and the
  \<^verbatim>\<open>connected\<close> flag.
\<close>

record proto =
  cls :: protoclass
  socket :: sock
  connected :: bool

definition proto_init :: "host \<Rightarrow> protoclass \<Rightarrow> sock \<Rightarrow> error + proto" where
  "proto_init h c s =
     (if c = PlistProtocol \<and> \<not> haveplist h then Inl (PyException ''You need the plistlib module'')
      else Inr \<lparr>cls = c, socket = s, connected = False\<rparr>)"

text \<open>
  \<^verbatim>\<open>_pack\<close>, by the class of the object. \<^verbatim>\<open>BinaryProtocol._pack\<close> reads the
  dictionary; \<^verbatim>\<open>PlistProtocol._pack\<close> returns what it is given, which
  \<^verbatim>\<open>PlistProtocol.sendpacket\<close>, its only caller, makes the bytes of
  \<^verbatim>\<open>plistlib.dumps\<close>.
\<close>

fun pack :: "host \<Rightarrow> protoclass \<Rightarrow> pyval \<Rightarrow> pyval \<Rightarrow> error + byte list" where
  "pack h BinaryProtocol req payload =
     (if req = TYPE_CONNECT BinaryProtocol then
        (case getitem payload ''DeviceID'' of
           Inl e \<Rightarrow> Inl e
         | Inr d \<Rightarrow>
             (case getitem payload ''PortNumber'' of
                Inl e \<Rightarrow> Inl e
              | Inr pn \<Rightarrow>
                  (case struct_pack (endian h) [FmtI, FmtH] [d, pn] of
                     Inl e \<Rightarrow> Inl e
                   | Inr b \<Rightarrow> Inr (b @ [0, 0]))))
      else if req = TYPE_LISTEN BinaryProtocol then Inr []
      else Inl (ValueError ''Invalid outgoing request type '' [req]))"
| "pack h PlistProtocol req payload =
     (case payload of VBytes b \<Rightarrow> Inr b | _ \<Rightarrow> Inl TypeError)"

text \<open>
  \<^verbatim>\<open>_unpack\<close>, by the class of the object. \<^verbatim>\<open>serial.split(b"\0")[0]\<close> is the part of
  the field before its first zero byte.
\<close>

fun unpack :: "host \<Rightarrow> protoclass \<Rightarrow> pyval \<Rightarrow> byte list \<Rightarrow> error + pyval" where
  "unpack h BinaryProtocol resp payload =
     (if resp = TYPE_RESULT BinaryProtocol then
        (case struct_unpack (endian h) [FmtI] payload of
           Inl e \<Rightarrow> Inl e
         | Inr vs \<Rightarrow>
             (case first_item vs of
                Inl e \<Rightarrow> Inl e
              | Inr n \<Rightarrow> Inr (VDict [''Number'' \<mapsto> n])))
      else if resp = TYPE_DEVICE_ADD BinaryProtocol then
        (case struct_unpack (endian h) [FmtI, FmtH, FmtS 256, FmtH, FmtI] payload of
           Inl e \<Rightarrow> Inl e
         | Inr vs \<Rightarrow>
             (case tuple5 vs of
                Inl e \<Rightarrow> Inl e
              | Inr (devid, usbpid, serial, pad, location) \<Rightarrow>
                  (case serial of
                     VBytes sb \<Rightarrow>
                       (case bytes_decode (takeWhile (\<lambda>b. b \<noteq> 0) sb) of
                          Inl e \<Rightarrow> Inl e
                        | Inr serial' \<Rightarrow>
                            Inr (VDict [''DeviceID'' \<mapsto> devid,
                                        ''Properties'' \<mapsto>
                                          VDict [''LocationID'' \<mapsto> location,
                                                 ''SerialNumber'' \<mapsto> VStr serial',
                                                 ''ProductID'' \<mapsto> usbpid]]))
                   | _ \<Rightarrow> Inl TypeError)))
      else if resp = TYPE_DEVICE_REMOVE BinaryProtocol then
        (case struct_unpack (endian h) [FmtI] payload of
           Inl e \<Rightarrow> Inl e
         | Inr vs \<Rightarrow>
             (case first_item vs of
                Inl e \<Rightarrow> Inl e
              | Inr devid \<Rightarrow> Inr (VDict [''DeviceID'' \<mapsto> devid])))
      else Inl (MuxError ''Invalid incoming request type '' [resp]))"
| "unpack h PlistProtocol resp payload = Inr (VBytes payload)"

text \<open>
  \<^verbatim>\<open>BinaryProtocol.sendpacket\<close>, which \<^verbatim>\<open>PlistProtocol.sendpacket\<close> also reaches
  through \<^verbatim>\<open>super()\<close>: \<^verbatim>\<open>self._pack\<close> and \<^verbatim>\<open>self.VERSION\<close> are those of the
  object's class. The payload is packed before the \<^verbatim>\<open>connected\<close> flag is looked at.
\<close>

definition BinaryProtocol_sendpacket ::
  "host \<Rightarrow> proto \<Rightarrow> pyval \<Rightarrow> int \<Rightarrow> pyval \<Rightarrow> (error + unit) \<times> proto" where
  "BinaryProtocol_sendpacket h p req tag payload =
     (case pack h (cls p) req payload of
        Inl e \<Rightarrow> (Inl e, p)
      | Inr payload_bytes \<Rightarrow>
          if connected p then
            (Inl (MuxError ''Mux is connected, cannot issue control packets'' []), p)
          else
            (case struct_pack (endian h) [FmtI, FmtI, FmtI, FmtI]
                    [VInt (16 + int (length payload_bytes)), VInt (VERSION (cls p)), req, VInt tag] of
               Inl e \<Rightarrow> (Inl e, p)
             | Inr header \<Rightarrow>
                 (case send (socket p) (header @ payload_bytes) of
                    (r, s') \<Rightarrow> (r, p\<lparr>socket := s'\<rparr>))))"

text \<open>
  \<^verbatim>\<open>BinaryProtocol.getpacket\<close>. \<^verbatim>\<open>body[:12]\<close> and \<^verbatim>\<open>body[12:]\<close> are \<open>take\<close> and
  \<open>drop\<close>; a body shorter than 12 bytes makes \<^verbatim>\<open>struct.unpack\<close> raise.
\<close>

definition BinaryProtocol_getpacket ::
  "host \<Rightarrow> proto \<Rightarrow> (error + (pyval \<times> pyval \<times> pyval)) \<times> proto" where
  "BinaryProtocol_getpacket h p =
     (if connected p then
        (Inl (MuxError ''Mux is connected, cannot issue control packets'' []), p)
      else
        (case recv (socket p) 4 of
           (Inl e, s1) \<Rightarrow> (Inl e, p\<lparr>socket := s1\<rparr>)
         | (Inr dlen_bytes, s1) \<Rightarrow>
             (case struct_unpack (endian h) [FmtI] dlen_bytes of
                Inl e \<Rightarrow> (Inl e, p\<lparr>socket := s1\<rparr>)
              | Inr vs \<Rightarrow>
                  (case first_item vs of
                     Inl e \<Rightarrow> (Inl e, p\<lparr>socket := s1\<rparr>)
                   | Inr (VInt dlen) \<Rightarrow>
                       (case recv s1 (dlen - 4) of
                          (Inl e, s2) \<Rightarrow> (Inl e, p\<lparr>socket := s2\<rparr>)
                        | (Inr body, s2) \<Rightarrow>
                            (case struct_unpack (endian h) [FmtI, FmtI, FmtI] (take 12 body) of
                               Inl e \<Rightarrow> (Inl e, p\<lparr>socket := s2\<rparr>)
                             | Inr ws \<Rightarrow>
                                 (case tuple3 ws of
                                    Inl e \<Rightarrow> (Inl e, p\<lparr>socket := s2\<rparr>)
                                  | Inr (version, resp, tag) \<Rightarrow>
                                      if version \<noteq> VInt (VERSION (cls p)) then
                                        (Inl (MuxVersionError ''Version mismatch: expected ''
                                                [VInt (VERSION (cls p)), version]),
                                         p\<lparr>socket := s2\<rparr>)
                                      else
                                        (case unpack h (cls p) resp (drop 12 body) of
                                           Inl e \<Rightarrow> (Inl e, p\<lparr>socket := s2\<rparr>)
                                         | Inr payload \<Rightarrow>
                                             (Inr (resp, tag, payload), p\<lparr>socket := s2\<rparr>)))))
                   | Inr _ \<Rightarrow> (Inl TypeError, p\<lparr>socket := s1\<rparr>)))))"

text \<open>
  \<^verbatim>\<open>PlistProtocol.sendpacket\<close>: three assignments into the caller's dictionary, the
  first of them before the request type is looked up in the two-element list
  (\<open>message_type\<close>: the \<^verbatim>\<open>if isinstance(req, int)\<close> statement), then
  \<^verbatim>\<open>plistlib.dumps\<close> and the inherited \<^verbatim>\<open>sendpacket\<close>.
\<close>

definition message_type :: "pyval \<Rightarrow> error + pyval" where
  "message_type req =
     (case req of
        VInt i \<Rightarrow> py_index [TYPE_CONNECT PlistProtocol, TYPE_LISTEN PlistProtocol] (i - 2)
      | _ \<Rightarrow> Inr req)"

definition PlistProtocol_sendpacket ::
  "host \<Rightarrow> proto \<Rightarrow> pyval \<Rightarrow> int \<Rightarrow> nat option \<Rightarrow> heap \<Rightarrow> (error + unit) \<times> proto \<times> heap" where
  "PlistProtocol_sendpacket h p req tag payload_arg hp =
     (let payload = (case payload_arg of None \<Rightarrow> PlistProtocol_sendpacket_default | Some r \<Rightarrow> r);
          hp1 = setitem hp payload ''ClientVersionString'' (VStr ''usbmux.py by marcan'')
      in case message_type req of
           Inl e \<Rightarrow> (Inl e, p, hp1)
         | Inr req' \<Rightarrow>
             (let hp2 = setitem hp1 payload ''MessageType'' req';
                  hp3 = setitem hp2 payload ''ProgName'' (VStr ''tcprelay'')
              in case dumps h (dicts hp3 payload) of
                   Inl e \<Rightarrow> (Inl e, p, hp3)
                 | Inr plist_data \<Rightarrow>
                     (case BinaryProtocol_sendpacket h p TYPE_PLIST tag (VBytes plist_data) of
                        (r, p') \<Rightarrow> (r, p', hp3))))"

definition PlistProtocol_getpacket ::
  "host \<Rightarrow> proto \<Rightarrow> (error + (pyval \<times> pyval \<times> pyval)) \<times> proto" where
  "PlistProtocol_getpacket h p =
     (case BinaryProtocol_getpacket h p of
        (Inl e, p') \<Rightarrow> (Inl e, p')
      | (Inr (resp, tag, payload), p') \<Rightarrow>
          if resp \<noteq> TYPE_PLIST then (Inl (MuxError ''Received non-plist type '' [resp]), p')
          else
            (case payload of
               VBytes b \<Rightarrow>
                 (case loads h b of
                    Inl e \<Rightarrow> (Inl e, p')
                  | Inr payload' \<Rightarrow>
                      (case getitem payload' ''MessageType'' of
                         Inl e \<Rightarrow> (Inl e, p')
                       | Inr mt \<Rightarrow> (Inr (mt, tag, payload'), p')))
             | _ \<Rightarrow> (Inl TypeError, p')))"

text \<open>The two methods as a call on a protocol object dispatches them.\<close>

definition sendpacket ::
  "host \<Rightarrow> proto \<Rightarrow> pyval \<Rightarrow> int \<Rightarrow> nat option \<Rightarrow> heap \<Rightarrow> (error + unit) \<times> proto \<times> heap" where
  "sendpacket h p req tag payload_arg hp =
     (case cls p of
        BinaryProtocol \<Rightarrow>
          (let payload = (case payload_arg of None \<Rightarrow> BinaryProtocol_sendpacket_default | Some r \<Rightarrow> r)
           in case BinaryProtocol_sendpacket h p req tag (VDict (dicts hp payload)) of
                (r, p') \<Rightarrow> (r, p', hp))
      | PlistProtocol \<Rightarrow> PlistProtocol_sendpacket h p req tag payload_arg hp)"

definition getpacket ::
  "host \<Rightarrow> proto \<Rightarrow> (error + (pyval \<times> pyval \<times> pyval)) \<times> proto" where
  "getpacket h p =
     (case cls p of
        BinaryProtocol \<Rightarrow> BinaryProtocol_getpacket h p
      | PlistProtocol \<Rightarrow> PlistProtocol_getpacket h p)"

section \<open>\<^verbatim>\<open>MuxDevice\<close> and \<^verbatim>\<open>MuxConnection\<close>\<close>

record MuxDevice =
  devid :: pyval
  usbprod :: pyval
  serial :: pyval
  location :: pyval

text \<open>
  A connection holds its protocol object (and through it the socket, the one object
  both \<^verbatim>\<open>self.socket\<close> and \<^verbatim>\<open>self.proto.socket\<close> name), the tag counter and the
  device list.
\<close>

record MuxConnection =
  proto :: proto
  pkttag :: int
  devices :: "MuxDevice list"

text \<open>
  \<^verbatim>\<open>MuxConnection.__init__\<close>. Whether the daemon's socket can be reached is the
  environment's: \<open>None\<close> is a \<^verbatim>\<open>sock.connect\<close> that raises \<^verbatim>\<open>OSError\<close>.
\<close>

definition MuxConnection_init :: "host \<Rightarrow> sock option \<Rightarrow> protoclass \<Rightarrow> error + MuxConnection" where
  "MuxConnection_init h conn protoclass' =
     (case conn of
        None \<Rightarrow> Inl OSError
      | Some s \<Rightarrow>
          (case proto_init h protoclass' s of
             Inl e \<Rightarrow> Inl e
           | Inr p \<Rightarrow> Inr \<lparr>proto = p, pkttag = 1, devices = []\<rparr>))"

text \<open>
  \<^verbatim>\<open>_getreply\<close>: the body of its \<^verbatim>\<open>while True\<close> returns or raises the first time
  round, so there is no loop.
\<close>

definition getreply :: "host \<Rightarrow> MuxConnection \<Rightarrow> (error + (pyval \<times> pyval)) \<times> MuxConnection" where
  "getreply h c =
     (case getpacket h (proto c) of
        (Inl e, p') \<Rightarrow> (Inl e, c\<lparr>proto := p'\<rparr>)
      | (Inr (resp, tag, data), p') \<Rightarrow>
          if resp = TYPE_RESULT (cls (proto c)) then (Inr (tag, data), c\<lparr>proto := p'\<rparr>)
          else (Inl (MuxError ''Invalid packet type received: '' [resp]), c\<lparr>proto := p'\<rparr>))"

text \<open>
  The \<^verbatim>\<open>for dev in self.devices\<close> of \<^verbatim>\<open>_processpacket\<close> removes from the list it
  walks. Python's list iterator keeps an index: it stops when the index reaches the
  current length and otherwise takes the item there and moves on by one, so the item
  that slides into the place of a removed one is not visited. \<^verbatim>\<open>MuxDevice\<close> has no
  \<^verbatim>\<open>__eq__\<close> and every entry is an object of its own, so \<^verbatim>\<open>remove(dev)\<close> takes
  out the entry being visited. \<^verbatim>\<open>data['DeviceID']\<close> is looked up at every visit.
\<close>

definition remove_at :: "nat \<Rightarrow> 'a list \<Rightarrow> 'a list" where
  "remove_at i xs = take i xs @ drop (Suc i) xs"

function remove_loop :: "MuxDevice list \<Rightarrow> nat \<Rightarrow> pyval \<Rightarrow> (error + unit) \<times> MuxDevice list" where
  "remove_loop devs i data =
     (if i < length devs then
        (case getitem data ''DeviceID'' of
           Inl e \<Rightarrow> (Inl e, devs)
         | Inr d \<Rightarrow>
             if devid (devs ! i) = d then remove_loop (remove_at i devs) (Suc i) data
             else remove_loop devs (Suc i) data)
      else (Inr (), devs))"
  by pat_completeness auto
termination
  by (relation "measure (\<lambda>(devs, i, data). length devs - i)") (auto simp add: remove_at_def)

text \<open>
  \<^verbatim>\<open>_processpacket\<close>, in two steps: \<open>dispatch\<close> is everything after the call of
  \<^verbatim>\<open>getpacket\<close>.
\<close>

definition dispatch ::
  "MuxConnection \<Rightarrow> pyval \<times> pyval \<times> pyval \<Rightarrow> (error + unit) \<times> MuxConnection" where
  "dispatch c pkt =
     (case pkt of (resp, tag, data) \<Rightarrow>
        if resp = TYPE_DEVICE_ADD (cls (proto c)) then
          (case getitem data ''DeviceID'' of
             Inl e \<Rightarrow> (Inl e, c)
           | Inr d \<Rightarrow>
               (case getitem data ''Properties'' of
                  Inl e \<Rightarrow> (Inl e, c)
                | Inr props \<Rightarrow>
                    (case getitem props ''ProductID'' of
                       Inl e \<Rightarrow> (Inl e, c)
                     | Inr pid \<Rightarrow>
                         (case getitem props ''SerialNumber'' of
                            Inl e \<Rightarrow> (Inl e, c)
                          | Inr ser \<Rightarrow>
                              (case getitem props ''LocationID'' of
                                 Inl e \<Rightarrow> (Inl e, c)
                               | Inr loc \<Rightarrow>
                                   (Inr (),
                                    c\<lparr>devices := devices c @
                                         [\<lparr>devid = d, usbprod = pid, serial = ser,
                                           location = loc\<rparr>]\<rparr>))))))
        else if resp = TYPE_DEVICE_REMOVE (cls (proto c)) then
          (case remove_loop (devices c) 0 data of (r, devs) \<Rightarrow> (r, c\<lparr>devices := devs\<rparr>))
        else if resp = TYPE_RESULT (cls (proto c)) then
          (Inl (MuxError ''Unexpected result: '' [resp]), c)
        else (Inl (MuxError ''Invalid packet type received: '' [resp]), c))"

definition processpacket :: "host \<Rightarrow> MuxConnection \<Rightarrow> (error + unit) \<times> MuxConnection" where
  "processpacket h c =
     (case getpacket h (proto c) of
        (Inl e, p') \<Rightarrow> (Inl e, c\<lparr>proto := p'\<rparr>)
      | (Inr pkt, p') \<Rightarrow> dispatch (c\<lparr>proto := p'\<rparr>) pkt)"

text \<open>\<^verbatim>\<open>_exchange\<close>: the tag is taken and the counter moved on before anything is sent.\<close>

definition exchange ::
  "host \<Rightarrow> MuxConnection \<Rightarrow> pyval \<Rightarrow> nat option \<Rightarrow> heap \<Rightarrow>
   (error + pyval) \<times> MuxConnection \<times> heap" where
  "exchange h c req payload_arg hp =
     (let payload = (case payload_arg of None \<Rightarrow> exchange_default | Some r \<Rightarrow> r);
          mytag = pkttag c;
          c1 = c\<lparr>pkttag := pkttag c + 1\<rparr>
      in case sendpacket h (proto c1) req mytag (Some payload) hp of
           (Inl e, p', hp') \<Rightarrow> (Inl e, c1\<lparr>proto := p'\<rparr>, hp')
         | (Inr u, p', hp') \<Rightarrow>
             (case getreply h (c1\<lparr>proto := p'\<rparr>) of
                (Inl e, c2) \<Rightarrow> (Inl e, c2, hp')
              | (Inr (recvtag, data), c2) \<Rightarrow>
                  if recvtag \<noteq> VInt mytag then
                    (Inl (MuxError ''Reply tag mismatch: expected '' [VInt mytag, recvtag]), c2, hp')
                  else
                    (case getitem data ''Number'' of
                       Inl e \<Rightarrow> (Inl e, c2, hp')
                     | Inr n \<Rightarrow> (Inr n, c2, hp'))))"

definition listen :: "host \<Rightarrow> MuxConnection \<Rightarrow> heap \<Rightarrow> (error + unit) \<times> MuxConnection \<times> heap" where
  "listen h c hp =
     (case exchange h c (TYPE_LISTEN (cls (proto c))) None hp of
        (Inl e, c', hp') \<Rightarrow> (Inl e, c', hp')
      | (Inr ret, c', hp') \<Rightarrow>
          if ret \<noteq> VInt 0 then (Inl (MuxError ''Listen failed: error '' [ret]), c', hp')
          else (Inr (), c', hp'))"

text \<open>
  \<^verbatim>\<open>process\<close>: what \<^verbatim>\<open>select.select\<close> reports is the environment's; \<open>rlo\<close> and
  \<open>xlo\<close> say whether the readable and the exceptional list came back non-empty.
\<close>

definition process :: "host \<Rightarrow> MuxConnection \<Rightarrow> bool \<times> bool \<Rightarrow> (error + unit) \<times> MuxConnection" where
  "process h c sel =
     (case sel of (rlo, xlo) \<Rightarrow>
        if connected (proto c) then
          (Inl (MuxError ''Socket is connected, cannot process listener events'' []), c)
        else if xlo then
          (Inl (MuxError ''Exception in listener socket'' []),
           c\<lparr>proto := (proto c)\<lparr>socket := sock_close (socket (proto c))\<rparr>\<rparr>)
        else if rlo then processpacket h c
        else (Inr (), c))"

section \<open>The port byte swap of \<^verbatim>\<open>MuxConnection.connect\<close>\<close>

definition port_swapped :: "int \<Rightarrow> int" where
  "port_swapped port = (push_bit 8 port AND 0xFF00) OR drop_bit 8 port"

text \<open>
  \<^verbatim>\<open>connect\<close> makes a new dictionary for the request, and on status 0 sets the
  \<^verbatim>\<open>connected\<close> flag and returns \<^verbatim>\<open>self.socket.sock\<close>.
\<close>

definition connect ::
  "host \<Rightarrow> MuxConnection \<Rightarrow> MuxDevice \<Rightarrow> int \<Rightarrow> heap \<Rightarrow>
   (error + sock) \<times> MuxConnection \<times> heap" where
  "connect h c device port hp =
     (case new_dict hp [''DeviceID'' \<mapsto> devid device,
                        ''PortNumber'' \<mapsto> VInt (port_swapped port)] of
        (payload, hp0) \<Rightarrow>
          (case exchange h c (TYPE_CONNECT (cls (proto c))) (Some payload) hp0 of
             (Inl e, c', hp') \<Rightarrow> (Inl e, c', hp')
           | (Inr ret, c', hp') \<Rightarrow>
               if ret \<noteq> VInt 0 then (Inl (MuxError ''Connect failed: error '' [ret]), c', hp')
               else (Inr (socket (proto c')), c'\<lparr>proto := (proto c')\<lparr>connected := True\<rparr>\<rparr>, hp')))"

section \<open>\<^verbatim>\<open>USBMux\<close>\<close>

text \<open>
  \<^verbatim>\<open>self.devices\<close> is the listener's list itself, so it is read as
  \<open>devices (listener m)\<close>. \<open>conn0\<close> and \<open>conn1\<close> are what the daemon's socket
  gives the first and the second \<^verbatim>\<open>MuxConnection\<close> of the constructor.
\<close>

record USBMux =
  listener :: MuxConnection
  version :: int
  protoclass :: protoclass

definition USBMux_init ::
  "host \<Rightarrow> sock option \<Rightarrow> sock option \<Rightarrow> heap \<Rightarrow> (error + USBMux) \<times> heap" where
  "USBMux_init h conn0 conn1 hp =
     (case MuxConnection_init h conn0 BinaryProtocol of
        Inl e \<Rightarrow> (Inl e, hp)
      | Inr l0 \<Rightarrow>
          (case listen h l0 hp of
             (Inr u, l0', hp') \<Rightarrow>
               (Inr \<lparr>listener = l0', version = 0, protoclass = BinaryProtocol\<rparr>, hp')
           | (Inl (MuxVersionError m vs), l0', hp') \<Rightarrow>
               (case MuxConnection_init h conn1 PlistProtocol of
                  Inl e \<Rightarrow> (Inl e, hp')
                | Inr l1 \<Rightarrow>
                    (case listen h l1 hp' of
                       (Inl e, l1', hp'') \<Rightarrow> (Inl e, hp'')
                     | (Inr u, l1', hp'') \<Rightarrow>
                         (Inr \<lparr>listener = l1', version = 1, protoclass = PlistProtocol\<rparr>, hp'')))
           | (Inl e, l0', hp') \<Rightarrow> (Inl e, hp')))"

definition USBMux_process :: "host \<Rightarrow> USBMux \<Rightarrow> bool \<times> bool \<Rightarrow> (error + unit) \<times> USBMux" where
  "USBMux_process h m sel =
     (case process h (listener m) sel of (r, l') \<Rightarrow> (r, m\<lparr>listener := l'\<rparr>))"

definition USBMux_connect ::
  "host \<Rightarrow> USBMux \<Rightarrow> MuxDevice \<Rightarrow> int \<Rightarrow> sock option \<Rightarrow> heap \<Rightarrow> (error + sock) \<times> heap" where
  "USBMux_connect h m device port conn hp =
     (case MuxConnection_init h conn (protoclass m) of
        Inl e \<Rightarrow> (Inl e, hp)
      | Inr connector \<Rightarrow>
          (case connect h connector device port hp of (r, c', hp') \<Rightarrow> (r, hp')))"

section \<open>\<^verbatim>\<open>TCPRelay\<close>\<close>

text \<open>
  What the relay's threads share: the accepted local sockets (by number), the lines
  printed, and the program's dictionaries. A local socket is \<open>Accepted\<close> until its
  handler has run; the handler leaves it \<open>Closed\<close> or hands it, with the device
  socket, to the two forwarding threads (\<open>Forwarding\<close>; what those threads do is not
  part of this development).
\<close>

datatype client_state = Accepted | Closed | Forwarding sock

datatype log_entry = CouldNotConnect int error

record relay =
  clients :: "nat \<Rightarrow> client_state"
  printed :: "log_entry list"
  store :: heap

text \<open>
  What one handler meets on the daemon's side: the sockets of the (up to) three
  connections it opens (the listener, the listener of the retry, the connection of
  the stream), and what \<^verbatim>\<open>select\<close> reports.
\<close>

record daemon =
  listen_conn :: "sock option"
  retry_conn :: "sock option"
  stream_conn :: "sock option"
  selected :: "bool \<times> bool"

text \<open>The body of the \<^verbatim>\<open>try\<close> statement of \<^verbatim>\<open>handle_connection\<close>.\<close>

definition stream_setup :: "host \<Rightarrow> int \<Rightarrow> daemon \<Rightarrow> heap \<Rightarrow> (error + sock) \<times> heap" where
  "stream_setup h remote_port d hp =
     (case USBMux_init h (listen_conn d) (retry_conn d) hp of
        (Inl e, hp1) \<Rightarrow> (Inl e, hp1)
      | (Inr mux, hp1) \<Rightarrow>
          (case (if devices (listener mux) = [] then USBMux_process h mux (selected d)
                 else (Inr (), mux)) of
             (Inl e, mux') \<Rightarrow> (Inl e, hp1)
           | (Inr u, mux') \<Rightarrow>
               (case first_item (devices (listener mux')) of
                  Inl e \<Rightarrow> (Inl e, hp1)
                | Inr device \<Rightarrow> USBMux_connect h mux' device remote_port (stream_conn d) hp1)))"

text \<open>
  \<^verbatim>\<open>handle_connection\<close>: every exception of the model is an \<^verbatim>\<open>Exception\<close>, so the
  handler catches whatever the setup raises.
\<close>

definition handle_connection :: "host \<Rightarrow> int \<Rightarrow> daemon \<Rightarrow> nat \<Rightarrow> relay \<Rightarrow> relay" where
  "handle_connection h remote_port d client_sock w =
     (case stream_setup h remote_port d (store w) of
        (Inl e, hp') \<Rightarrow>
          w\<lparr>printed := printed w @ [CouldNotConnect remote_port e],
            clients := (clients w)(client_sock := Closed),
            store := hp'\<rparr>
      | (Inr device_sock, hp') \<Rightarrow>
          w\<lparr>clients := (clients w)(client_sock := Forwarding device_sock), store := hp'\<rparr>)"

text \<open>
  \<^verbatim>\<open>serve_forever\<close>, over the connections accepted until the interrupt, each with
  the daemon its handler meets. The handler threads are taken one after the other,
  in the order of \<^verbatim>\<open>accept\<close>.
\<close>

fun serve_forever :: "host \<Rightarrow> int \<Rightarrow> relay \<Rightarrow> (nat \<times> daemon) list \<Rightarrow> relay" where
  "serve_forever h remote_port w [] = w"
| "serve_forever h remote_port w ((client_sock, d) # accepted) =
     serve_forever h remote_port (handle_connection h remote_port d client_sock w) accepted"

section \<open>The frame on the wire\<close>

text \<open>
  What one packet is on the socket: the 16-byte header of \<^verbatim>\<open>sendpacket\<close>
  (\<^verbatim>\<open>struct.pack("IIII", length, version, request, tag)\<close>) and the payload. The
  daemon's replies and events have the same shape, which \<^verbatim>\<open>getpacket\<close> reads.
\<close>

definition frame :: "byteorder \<Rightarrow> nat \<Rightarrow> nat \<Rightarrow> nat \<Rightarrow> byte list \<Rightarrow> byte list" where
  "frame bo ver kind tag payload =
     uint_bytes bo 4 (16 + length payload) @ uint_bytes bo 4 ver @ uint_bytes bo 4 kind
     @ uint_bytes bo 4 tag @ payload"

section \<open>A concrete host\<close>

text \<open>
  A little-endian machine for the worked instances. Its property-list functions
  stand in for \<^verbatim>\<open>plistlib\<close> on the documents of the instances only: \<open>toy_dumps\<close>
  writes the message type, \<open>toy_loads\<close> reads a result with status 0 out of the
  word \<^verbatim>\<open>Result\<close> and a request without further keys out of anything else.
\<close>

definition toy_dumps :: "pydict \<Rightarrow> error + byte list" where
  "toy_dumps d =
     (case d ''MessageType'' of
        Some (VStr s) \<Rightarrow> Inr (map (\<lambda>c. of_nat (of_char c)) s)
      | _ \<Rightarrow> Inl PlistError)"

definition toy_loads :: "byte list \<Rightarrow> error + pyval" where
  "toy_loads b =
     (let s = map (\<lambda>x. char_of (unat x)) b
      in if s = ''Result'' then
           Inr (VDict [''MessageType'' \<mapsto> VStr ''Result'', ''Number'' \<mapsto> VInt 0])
         else
           Inr (VDict [''ClientVersionString'' \<mapsto> VStr ''usbmux.py by marcan'',
                       ''MessageType'' \<mapsto> VStr s,
                       ''ProgName'' \<mapsto> VStr ''tcprelay'']))"

definition host0 :: host where
  "host0 = \<lparr>endian = LittleEndian, haveplist = True, dumps = toy_dumps, loads = toy_loads\<rparr>"

section \<open>Device events on the listening connection\<close>

text \<open>
  An attach or detach event of the daemon, and the packet \<^verbatim>\<open>getpacket\<close> hands to
  \<^verbatim>\<open>_processpacket\<close> for it (the dictionary \<^verbatim>\<open>BinaryProtocol._unpack\<close> builds; the
  property list of the structured protocol has the same keys). \<open>process_events\<close>
  is one call of \<open>dispatch\<close> per event, in the order the events arrive.
\<close>

datatype event = Attach pyval pyval pyval pyval | Detach pyval

fun event_packet :: "protoclass \<Rightarrow> pyval \<Rightarrow> event \<Rightarrow> pyval \<times> pyval \<times> pyval" where
  "event_packet k tag (Attach d pid ser loc) =
     (TYPE_DEVICE_ADD k, tag,
      VDict [''DeviceID'' \<mapsto> d,
             ''Properties'' \<mapsto>
               VDict [''LocationID'' \<mapsto> loc, ''SerialNumber'' \<mapsto> ser, ''ProductID'' \<mapsto> pid]])"
| "event_packet k tag (Detach d) = (TYPE_DEVICE_REMOVE k, tag, VDict [''DeviceID'' \<mapsto> d])"

fun process_events :: "MuxConnection \<Rightarrow> event list \<Rightarrow> MuxConnection" where
  "process_events c [] = c"
| "process_events c (ev # evs) =
     process_events (snd (dispatch c (event_packet (cls (proto c)) (VInt 0) ev))) evs"

text \<open>
  The daemon gives a device id to one device at a time: an event sequence is
  \<open>fresh_ids live\<close> when, starting with the ids in \<open>live\<close> attached, no attach event
  carries an id that is attached at that moment.
\<close>

fun fresh_ids :: "pyval list \<Rightarrow> event list \<Rightarrow> bool" where
  "fresh_ids live [] = True"
| "fresh_ids live (Attach d pid ser loc # evs) = (d \<notin> set live \<and> fresh_ids (d # live) evs)"
| "fresh_ids live (Detach d # evs) = fresh_ids (removeAll d live) evs"

definition sock0 :: sock where
  "sock0 = \<lparr>inbound = [], outbound = [], accepts = [], closed = False\<rparr>"

definition listener0 :: MuxConnection where
  "listener0 = \<lparr>proto = \<lparr>cls = BinaryProtocol, socket = sock0, connected = False\<rparr>,
                 pkttag = 2, devices = []\<rparr>"

definition plist_proto0 :: proto where
  "plist_proto0 = \<lparr>cls = PlistProtocol, socket = sock0, connected = False\<rparr>"

definition binary_proto0 :: proto where
  "binary_proto0 = \<lparr>cls = BinaryProtocol, socket = sock0, connected = False\<rparr>"

text \<open>
  Daemon sockets for the worked instances: \<open>daemon_sock segs\<close> is a fresh socket
  on which the daemon will send the segments \<open>segs\<close> and then close.
  \<open>result_frame\<close> is a binary \<^verbatim>\<open>Result\<close> packet on a little-endian machine.
\<close>

definition daemon_sock :: "byte list list \<Rightarrow> sock" where
  "daemon_sock segs = \<lparr>inbound = segs, outbound = [], accepts = [], closed = False\<rparr>"

definition result_frame :: "byte \<Rightarrow> byte \<Rightarrow> byte \<Rightarrow> byte list" where
  "result_frame ver tag status =
     [20, 0, 0, 0, ver, 0, 0, 0, 1, 0, 0, 0, tag, 0, 0, 0, status, 0, 0, 0]"

definition binary_conn :: "byte list list \<Rightarrow> MuxConnection" where
  "binary_conn segs =
     \<lparr>proto = \<lparr>cls = BinaryProtocol, socket = daemon_sock segs, connected = False\<rparr>,
      pkttag = 1, devices = []\<rparr>"

definition device0 :: MuxDevice where
  "device0 = \<lparr>devid = VInt 5, usbprod = VInt 0x12A8, serial = VStr ''abc'', location = VInt 0\<rparr>"

definition plist_result_frame :: "byte \<Rightarrow> byte list" where
  "plist_result_frame ver =
     [22, 0, 0, 0, ver, 0, 0, 0, 8, 0, 0, 0, 1, 0, 0, 0, 0x52, 0x65, 0x73, 0x75, 0x6C, 0x74]"

definition plist_conn :: "byte list list \<Rightarrow> MuxConnection" where
  "plist_conn segs =
     \<lparr>proto = \<lparr>cls = PlistProtocol, socket = daemon_sock segs, connected = False\<rparr>,
      pkttag = 1, devices = []\<rparr>"

definition relay0 :: relay where
  "relay0 = \<lparr>clients = (\<lambda>n. Accepted), printed = [], store = heap_init\<rparr>"

definition daemon_down :: daemon where
  "daemon_down = \<lparr>listen_conn = None, retry_conn = None, stream_conn = None, selected = (False, False)\<rparr>"

definition daemon_no_device :: daemon where
  "daemon_no_device =
     \<lparr>listen_conn = Some (daemon_sock [result_frame 0 1 0]), retry_conn = None, stream_conn = None,
      selected = (False, False)\<rparr>"

definition attach_frame :: "byte list list" where
  "attach_frame =
     [[0x1C, 1, 0, 0, 0, 0, 0, 0, 4, 0, 0, 0, 0, 0, 0, 0],
      [5, 0, 0, 0] @ [0xA8, 0x12] @ ([0x61, 0x62, 0x63] @ replicate 253 0) @ [0, 0]
        @ [0, 0, 0x10, 0x14]]"

definition daemon_ready :: daemon where
  "daemon_ready =
     \<lparr>listen_conn = Some (daemon_sock (result_frame 0 1 0 # attach_frame)), retry_conn = None,
      stream_conn = Some (daemon_sock [result_frame 0 1 0]), selected = (True, False)\<rparr>"

section \<open>The transport: \<^verbatim>\<open>SafeStreamSocket.recv\<close>\<close>

declare recv_loop.simps [simp del]
declare send_loop.simps [simp del]

lemma recv_loop_length:
  "recv_loop s sz msg = (Inr m, s') \<Longrightarrow> int (length msg) \<le> sz \<Longrightarrow> int (length m) = sz"
proof (induction s sz msg rule: recv_loop.induct)
  case (1 s sz msg)
  show ?case
  proof (cases "int (length msg) < sz")
    case False
    with "1.prems" show ?thesis by (simp add: recv_loop.simps [of s sz msg])
  next
    case True
    then obtain chunk s1 where r: "sock_recv s (nat (sz - int (length msg))) = Inr (chunk, s1)"
      and ne: "chunk \<noteq> []" and rec: "recv_loop s1 sz (msg @ chunk) = (Inr m, s')"
      using "1.prems"(1)
      by (auto simp add: recv_loop.simps [of s sz msg] split: sum.splits if_splits)
    have "length chunk \<le> nat (sz - int (length msg))"
      using r by (auto simp add: sock_recv_def split: if_splits list.splits)
    then have "int (length (msg @ chunk)) \<le> sz" using True by simp
    with "1.IH" [OF True r refl ne rec] show ?thesis by simp
  qed
qed

lemma recv_loop_error:
  "recv_loop s sz msg = (Inl e, s') \<Longrightarrow>
   (if closed s then e = OSError else e = MuxError ''socket connection broken'' [])"
proof (induction s sz msg rule: recv_loop.induct)
  case (1 s sz msg)
  show ?case
  proof (cases "int (length msg) < sz")
    case False
    with "1.prems" show ?thesis by (simp add: recv_loop.simps [of s sz msg])
  next
    case True
    show ?thesis
    proof (cases "sock_recv s (nat (sz - int (length msg)))")
      case (Inl e')
      with True "1.prems" show ?thesis
        by (auto simp add: recv_loop.simps [of s sz msg] sock_recv_def split: if_splits list.splits)
    next
      case (Inr p)
      obtain chunk s1 where p: "p = (chunk, s1)" by (cases p)
      have c: "closed s1 = closed s" "\<not> closed s"
        using Inr p by (auto simp add: sock_recv_def split: if_splits list.splits)
      show ?thesis
      proof (cases "chunk = []")
        case True
        with \<open>int (length msg) < sz\<close> Inr p "1.prems" c show ?thesis
          by (simp add: recv_loop.simps [of s sz msg])
      next
        case False
        with \<open>int (length msg) < sz\<close> Inr p "1.prems"
        have "recv_loop s1 sz (msg @ chunk) = (Inl e, s')"
          by (simp add: recv_loop.simps [of s sz msg])
        from "1.IH" [OF \<open>int (length msg) < sz\<close> _ refl False this] Inr p c
        show ?thesis by simp
      qed
    qed
  qed
qed

text \<open>
  One \<^verbatim>\<open>sock.recv\<close> on an open socket with data left takes a non-empty prefix of the
  byte stream, whatever the segments are.
\<close>

lemma sock_recv_stream:
  assumes "\<not> closed s" "[] \<notin> set (inbound s)" "0 < k" "inbound s \<noteq> []"
  shows "\<exists>chunk s1. sock_recv s k = Inr (chunk, s1) \<and> chunk \<noteq> [] \<and> length chunk \<le> k
           \<and> chunk = take (length chunk) (concat (inbound s))
           \<and> concat (inbound s1) = drop (length chunk) (concat (inbound s))
           \<and> \<not> closed s1 \<and> [] \<notin> set (inbound s1)
           \<and> outbound s1 = outbound s \<and> accepts s1 = accepts s"
proof -
  obtain seg rest where i: "inbound s = seg # rest" using assms(4) by (cases "inbound s") auto
  have seg: "seg \<noteq> []" "[] \<notin> set rest" using assms(2) i by auto
  show ?thesis
  proof (cases "length seg \<le> k")
    case True
    then show ?thesis using assms i seg by (simp add: sock_recv_def)
  next
    case False
    then show ?thesis using assms i seg by (auto simp add: sock_recv_def min_def)
  qed
qed

lemma recv_loop_stream:
  "\<not> closed s \<Longrightarrow> [] \<notin> set (inbound s) \<Longrightarrow>
   nat (sz - int (length msg)) \<le> length (concat (inbound s)) \<Longrightarrow>
   \<exists>s'. recv_loop s sz msg = (Inr (msg @ take (nat (sz - int (length msg))) (concat (inbound s))), s')
      \<and> \<not> closed s' \<and> [] \<notin> set (inbound s')
      \<and> concat (inbound s') = drop (nat (sz - int (length msg))) (concat (inbound s))
      \<and> outbound s' = outbound s \<and> accepts s' = accepts s"
proof (induction s sz msg rule: recv_loop.induct)
  case (1 s sz msg)
  let ?k = "nat (sz - int (length msg))"
  show ?case
  proof (cases "int (length msg) < sz")
    case False
    then show ?thesis using "1.prems" by (simp add: recv_loop.simps [of s sz msg])
  next
    case True
    then have k: "0 < ?k" by simp
    with "1.prems" have ne: "inbound s \<noteq> []" by auto
    from sock_recv_stream [OF "1.prems"(1,2) k ne]
    obtain chunk s1 where r: "sock_recv s ?k = Inr (chunk, s1)" and c: "chunk \<noteq> []"
      and len: "length chunk \<le> ?k"
      and ch: "chunk = take (length chunk) (concat (inbound s))"
      and cc: "concat (inbound s1) = drop (length chunk) (concat (inbound s))"
      and s1: "\<not> closed s1" "[] \<notin> set (inbound s1)" "outbound s1 = outbound s" "accepts s1 = accepts s"
      by blast
    have k': "nat (sz - int (length (msg @ chunk))) = ?k - length chunk" by simp
    have avail: "nat (sz - int (length (msg @ chunk))) \<le> length (concat (inbound s1))"
      using "1.prems"(3) cc len by (simp add: k')
    from "1.IH" [OF True r refl c s1(1,2) avail]
    obtain s' where rl: "recv_loop s1 sz (msg @ chunk) =
        (Inr ((msg @ chunk) @ take (?k - length chunk) (concat (inbound s1))), s')"
      and s': "\<not> closed s'" "[] \<notin> set (inbound s')"
        "concat (inbound s') = drop (?k - length chunk) (concat (inbound s1))"
        "outbound s' = outbound s1" "accepts s' = accepts s1"
      unfolding k' by blast
    have "chunk @ take (?k - length chunk) (drop (length chunk) (concat (inbound s))) =
          take ?k (concat (inbound s))"
    proof -
      have "take ?k (concat (inbound s)) =
            take (length chunk + (?k - length chunk)) (concat (inbound s))" using len by simp
      also have "\<dots> = take (length chunk) (concat (inbound s)) @
            take (?k - length chunk) (drop (length chunk) (concat (inbound s)))"
        by (rule take_add)
      finally show ?thesis using ch by simp
    qed
    moreover have "drop (?k - length chunk) (drop (length chunk) (concat (inbound s))) =
          drop ?k (concat (inbound s))" using len by simp
    moreover have "recv_loop s sz msg = recv_loop s1 sz (msg @ chunk)"
      using True r c by (simp add: recv_loop.simps [of s sz msg])
    ultimately show ?thesis using rl s' s1 cc by auto
  qed
qed

lemma recv_loop_short:
  "\<not> closed s \<Longrightarrow> length (concat (inbound s)) < nat (sz - int (length msg)) \<Longrightarrow>
   fst (recv_loop s sz msg) = Inl (MuxError ''socket connection broken'' [])"
proof (induction s sz msg rule: recv_loop.induct)
  case (1 s sz msg)
  let ?k = "nat (sz - int (length msg))"
  from "1.prems" have lt: "int (length msg) < sz" by simp
  show ?case
  proof (cases "inbound s")
    case Nil
    then show ?thesis using lt "1.prems" by (simp add: recv_loop.simps [of s sz msg] sock_recv_def)
  next
    case (Cons seg rest)
    let ?s1 = "s\<lparr>inbound := (if length seg \<le> ?k then rest else drop ?k seg # rest)\<rparr>"
    have r: "sock_recv s ?k = Inr (take ?k seg, ?s1)"
      using Cons "1.prems" by (simp add: sock_recv_def)
    have le: "length seg \<le> ?k" using Cons "1.prems"(2) by simp
    show ?thesis
    proof (cases "seg = []")
      case True
      then show ?thesis using lt r by (simp add: recv_loop.simps [of s sz msg])
    next
      case False
      then have ne: "take ?k seg \<noteq> []" using lt by simp
      have "length (concat (inbound ?s1)) < nat (sz - int (length (msg @ take ?k seg)))"
        using le Cons "1.prems"(2) by simp
      from "1.IH" [OF lt r refl ne _ this] "1.prems"(1)
      have "fst (recv_loop ?s1 sz (msg @ take ?k seg)) = Inl (MuxError ''socket connection broken'' [])"
        by simp
      then show ?thesis using lt r ne by (simp add: recv_loop.simps [of s sz msg])
    qed
  qed
qed

lemma recv_stream:
  assumes "\<not> closed s" "[] \<notin> set (inbound s)" "n \<le> length (concat (inbound s))"
  shows "\<exists>s'. recv s (int n) = (Inr (take n (concat (inbound s))), s')
      \<and> \<not> closed s' \<and> [] \<notin> set (inbound s')
      \<and> concat (inbound s') = drop n (concat (inbound s))
      \<and> outbound s' = outbound s \<and> accepts s' = accepts s"
  using recv_loop_stream [of s "int n" "[]"] assms by (simp add: recv_def)

text \<open>
  C6. For every byte count \<open>n\<close>, \<^verbatim>\<open>recv(n)\<close> returns exactly \<open>n\<close> bytes or raises:
  what it returns has length \<open>n\<close>; on an open socket the only error is
  \<^verbatim>\<open>MuxError("socket connection broken")\<close> (the transport error of the program), and
  it is raised whenever the peer closes with fewer than \<open>n\<close> bytes sent; when \<open>n\<close>
  bytes do arrive, in whatever segments, the result is the first \<open>n\<close> bytes of the
  stream.
\<close>

theorem recv_exactly_n:
  "(case recv s (int n) of
      (Inr msg, s') \<Rightarrow> length msg = n
    | (Inl e, s') \<Rightarrow>
        (if closed s then e = OSError else e = MuxError ''socket connection broken'' []))
   \<and> (\<not> closed s \<and> length (concat (inbound s)) < n \<longrightarrow>
        fst (recv s (int n)) = Inl (MuxError ''socket connection broken'' []))
   \<and> (\<not> closed s \<and> [] \<notin> set (inbound s) \<and> n \<le> length (concat (inbound s)) \<longrightarrow>
        fst (recv s (int n)) = Inr (take n (concat (inbound s))))"
proof (intro conjI impI)
  show "case recv s (int n) of
      (Inr msg, s') \<Rightarrow> length msg = n
    | (Inl e, s') \<Rightarrow>
        (if closed s then e = OSError else e = MuxError ''socket connection broken'' [])"
  proof (cases "recv s (int n)")
    case (Pair r s')
    show ?thesis
    proof (cases r)
      case (Inl e)
      with Pair recv_loop_error [of s "int n" "[]" e s'] show ?thesis by (simp add: recv_def)
    next
      case (Inr m)
      with Pair recv_loop_length [of s "int n" "[]" m s'] show ?thesis by (simp add: recv_def)
    qed
  qed
next
  assume "\<not> closed s \<and> length (concat (inbound s)) < n"
  then show "fst (recv s (int n)) = Inl (MuxError ''socket connection broken'' [])"
    using recv_loop_short [of s "int n" "[]"] by (simp add: recv_def)
next
  assume "\<not> closed s \<and> [] \<notin> set (inbound s) \<and> n \<le> length (concat (inbound s))"
  then show "fst (recv s (int n)) = Inr (take n (concat (inbound s)))"
    using recv_stream [of s n] by auto
qed

theorem recv_exactly_n_witness:
  "fst (recv \<lparr>inbound = [[1, 2], [3, 4, 5]], outbound = [], accepts = [], closed = False\<rparr> 3)
     = Inr [1, 2, 3]
   \<and> fst (recv \<lparr>inbound = [[1, 2], [3, 4, 5]], outbound = [], accepts = [], closed = False\<rparr> 6)
     = Inl (MuxError ''socket connection broken'' [])"
  using recv_exactly_n [of "\<lparr>inbound = [[1, 2], [3, 4, 5]], outbound = [], accepts = [], closed = False\<rparr>" 3]
    recv_exactly_n [of "\<lparr>inbound = [[1, 2], [3, 4, 5]], outbound = [], accepts = [], closed = False\<rparr>" 6]
  by simp

section \<open>The port byte swap\<close>

lemma bit_port:
  assumes "0 \<le> port" "port \<le> 65535" "bit (port::int) n"
  shows "n < 16"
proof -
  have "take_bit 16 port = port" using assms by (simp add: take_bit_int_eq_self)
  then have "bit (take_bit 16 port) n" using assms by simp
  then show ?thesis by (simp add: bit_take_bit_iff)
qed

lemma ff00: "(0xFF00::int) = push_bit 8 (mask 8)"
  by (simp add: mask_eq_exp_minus_1)

lemma bit_port_swapped:
  "bit (port_swapped port) n \<longleftrightarrow> (8 \<le> n \<and> n < 16 \<and> bit port (n - 8)) \<or> bit port (n + 8)"
  unfolding port_swapped_def ff00
  by (auto simp add: bit_simps add.commute)

lemma port_swapped_range:
  assumes "0 \<le> port" "port \<le> 65535"
  shows "0 \<le> port_swapped port \<and> port_swapped port \<le> 65535"
proof -
  have "take_bit 16 (port_swapped port) = port_swapped port"
    by (rule bit_eqI) (auto simp add: bit_take_bit_iff bit_port_swapped dest: bit_port [OF assms])
  then have "port_swapped port = take_bit 16 (port_swapped port)" by simp
  moreover have "0 \<le> take_bit 16 (port_swapped port)" by simp
  moreover have "take_bit 16 (port_swapped port) < 2 ^ 16" by (rule take_bit_int_less_exp)
  ultimately show ?thesis by simp
qed

text \<open>
  C7. The swap of \<^verbatim>\<open>connect\<close> is a function of the port, it maps 16-bit ports to
  16-bit ports, swapping twice gives the port back, and 8080 (0x1F90) becomes 0x901F.
\<close>

theorem port_swapped_involution:
  "(0 \<le> port \<and> port \<le> 65535 \<longrightarrow>
      port_swapped (port_swapped port) = port
      \<and> 0 \<le> port_swapped port \<and> port_swapped port \<le> 65535)
   \<and> port_swapped 8080 = 0x901F"
proof (intro conjI impI)
  assume a: "0 \<le> port \<and> port \<le> 65535"
  show "port_swapped (port_swapped port) = port"
    by (rule bit_eqI) (use a in \<open>auto simp add: bit_port_swapped dest: bit_port\<close>)
  show "0 \<le> port_swapped port" "port_swapped port \<le> 65535"
    using port_swapped_range [of port] a by simp_all
next
  show "port_swapped 8080 = 0x901F" by (simp add: port_swapped_def)
qed

theorem port_swapped_involution_witness:
  "(0::int) \<le> 22 \<and> (22::int) \<le> 65535 \<and> port_swapped 22 = 0x1600
   \<and> port_swapped (port_swapped 22) = 22"
  using port_swapped_involution [of 22] by (simp add: port_swapped_def)

section \<open>The binary layout\<close>

lemma length_uint_bytes [simp]: "length (uint_bytes bo n x) = n"
  by (cases bo) (simp_all add: uint_bytes_def)

lemma le_uint_map: "le_uint (map (\<lambda>i. of_nat (x div 256 ^ i)) [0..<n]) = x mod 256 ^ n"
proof (induction n arbitrary: x)
  case 0
  then show ?case by simp
next
  case (Suc n)
  have "map (\<lambda>i. (of_nat (x div 256 ^ i) :: byte)) [0..<Suc n] =
        of_nat x # map (\<lambda>i. of_nat ((x div 256) div 256 ^ i)) [0..<n]"
    by (simp add: upt_conv_Cons map_Suc_upt [symmetric] div_mult2_eq del: upt_Suc)
  then have "le_uint (map (\<lambda>i. (of_nat (x div 256 ^ i) :: byte)) [0..<Suc n]) =
        x mod 256 + 256 * ((x div 256) mod 256 ^ n)"
    using Suc.IH [of "x div 256"] by (simp add: unat_of_nat)
  also have "\<dots> = x mod 256 ^ Suc n"
    by (simp add: mod_mult2_eq)
  finally show ?case .
qed

lemma bytes_uint_uint_bytes: "bytes_uint bo (uint_bytes bo n x) = x mod 256 ^ n"
  by (cases bo) (simp_all add: bytes_uint_def uint_bytes_def le_uint_map)

lemma calcsize_attach: "calcsize [FmtI, FmtH, FmtS 256, FmtH, FmtI] = 268"
  by (simp add: calcsize_def align_up_def)

text \<open>
  What \<^verbatim>\<open>_unpack\<close> makes of any byte string under \<^verbatim>\<open>TYPE_DEVICE_ADD\<close>: the offsets
  0, 4, 6, 262 and 264 come out of the alignment rule of the format.
\<close>

lemma unpack_attach_general:
  "unpack h BinaryProtocol (VInt 4) payload =
     (if length payload \<noteq> 268 then Inl StructError
      else case bytes_decode (takeWhile (\<lambda>b. b \<noteq> 0) (take 256 (drop 6 payload))) of
             Inl e \<Rightarrow> Inl e
           | Inr s \<Rightarrow>
               Inr (VDict [''DeviceID'' \<mapsto> VInt (int (bytes_uint (endian h) (take 4 payload))),
                           ''Properties'' \<mapsto>
                             VDict [''LocationID'' \<mapsto> VInt (int (bytes_uint (endian h) (take 4 (drop 264 payload)))),
                                    ''SerialNumber'' \<mapsto> VStr s,
                                    ''ProductID'' \<mapsto> VInt (int (bytes_uint (endian h) (take 2 (drop 4 payload))))]]))"
  by (simp add: struct_unpack_def calcsize_attach align_up_def split: sum.splits)

declare unpack.simps [simp del]

text \<open>
  C8. A \<^verbatim>\<open>DeviceAttach\<close> payload made of a 32-bit device id, a 16-bit product id, a
  256-byte serial field, 2 padding bytes and a 32-bit location id, in this order and
  in the machine's byte order, decodes to exactly these values, the serial number
  being the field up to its first zero byte (as a string when it is UTF-8, otherwise
  \<^verbatim>\<open>decode()\<close> raises).
\<close>

theorem unpack_attach_fields:
  assumes "did < 2 ^ 32" "pid < 2 ^ 16" "lid < 2 ^ 32" "length field = 256" "length pad = 2"
  shows "unpack h BinaryProtocol (TYPE_DEVICE_ADD BinaryProtocol)
           (uint_bytes (endian h) 4 did @ uint_bytes (endian h) 2 pid @ field @ pad
            @ uint_bytes (endian h) 4 lid) =
         (case bytes_decode (takeWhile (\<lambda>b. b \<noteq> 0) field) of
            Inl e \<Rightarrow> Inl e
          | Inr s \<Rightarrow>
              Inr (VDict [''DeviceID'' \<mapsto> VInt (int did),
                          ''Properties'' \<mapsto>
                            VDict [''LocationID'' \<mapsto> VInt (int lid),
                                   ''SerialNumber'' \<mapsto> VStr s,
                                   ''ProductID'' \<mapsto> VInt (int pid)]]))"
proof -
  let ?p = "uint_bytes (endian h) 4 did @ uint_bytes (endian h) 2 pid @ field @ pad
            @ uint_bytes (endian h) 4 lid"
  have len: "length ?p = 268" using assms by simp
  have f1: "bytes_uint (endian h) (take 4 ?p) = did"
    using assms by (simp add: bytes_uint_uint_bytes)
  have f2: "bytes_uint (endian h) (take 2 (drop 4 ?p)) = pid"
    using assms by (simp add: bytes_uint_uint_bytes)
  have f3: "take 256 (drop 6 ?p) = field"
    using assms by simp
  have f4: "bytes_uint (endian h) (take 4 (drop 264 ?p)) = lid"
    using assms by (simp add: bytes_uint_uint_bytes)
  show ?thesis
    unfolding TYPE_DEVICE_ADD.simps unpack_attach_general f1 f2 f3 f4 using len by simp
qed

lemma uint_bytes_5: "uint_bytes LittleEndian 4 5 = [5, 0, 0, 0]"
  by (simp add: uint_bytes_def upt_conv_Cons)

lemma uint_bytes_12A8: "uint_bytes LittleEndian 2 0x12A8 = [0xA8, 0x12]"
  by (simp add: uint_bytes_def upt_conv_Cons)

lemma uint_bytes_14100000: "uint_bytes LittleEndian 4 0x14100000 = [0, 0, 0x10, 0x14]"
  by (simp add: uint_bytes_def upt_conv_Cons)

lemma decode_abc:
  "bytes_decode (takeWhile (\<lambda>b. b \<noteq> 0) ([0x61, 0x62, 0x63] @ replicate 253 0)) = Inr ''abc''"
  by (simp add: bytes_decode_def char_of_def bit_0)

lemma endian_host0 [simp]: "endian host0 = LittleEndian"
  by (simp add: host0_def)

theorem unpack_attach_fields_witness:
  "unpack host0 BinaryProtocol (VInt 4)
     ([5, 0, 0, 0] @ [0xA8, 0x12] @ ([0x61, 0x62, 0x63] @ replicate 253 0) @ [0, 0]
      @ [0, 0, 0x10, 0x14]) =
   Inr (VDict [''DeviceID'' \<mapsto> VInt 5,
               ''Properties'' \<mapsto>
                 VDict [''LocationID'' \<mapsto> VInt 0x14100000,
                        ''SerialNumber'' \<mapsto> VStr ''abc'',
                        ''ProductID'' \<mapsto> VInt 0x12A8]])"
  using unpack_attach_fields [of 5 "0x12A8" "0x14100000"
      "[0x61, 0x62, 0x63] @ replicate 253 0" "[0, 0]" host0]
  unfolding endian_host0 uint_bytes_5 uint_bytes_12A8 uint_bytes_14100000 decode_abc by simp

section \<open>The device registry\<close>

declare remove_loop.simps [simp del]

lemma remove_loop_absent:
  "getitem data ''DeviceID'' = Inr d \<Longrightarrow> \<forall>x \<in> set (drop i devs). devid x \<noteq> d \<Longrightarrow>
   remove_loop devs i data = (Inr (), devs)"
proof (induction devs i data rule: remove_loop.induct)
  case (1 devs i data)
  show ?case
  proof (cases "i < length devs")
    case False
    then show ?thesis by (simp add: remove_loop.simps [of devs i data])
  next
    case True
    then have "devs ! i \<in> set (drop i devs)"
      by (metis Cons_nth_drop_Suc list.set_intros(1))
    with "1.prems" have ne: "devid (devs ! i) \<noteq> d" by blast
    have "\<forall>x \<in> set (drop (Suc i) devs). devid x \<noteq> d"
      using "1.prems"(2) by (metis drop_Suc in_set_dropD set_drop_subset subsetD tl_drop drop_drop plus_1_eq_Suc)
    from "1.IH"(2) [OF True "1.prems"(1) ne "1.prems"(1) this] True ne "1.prems"(1)
    show ?thesis by (simp add: remove_loop.simps [of devs i data])
  qed
qed

lemma remove_loop_distinct:
  "getitem data ''DeviceID'' = Inr d \<Longrightarrow> distinct (map devid (drop i devs)) \<Longrightarrow>
   remove_loop devs i data = (Inr (), take i devs @ filter (\<lambda>x. devid x \<noteq> d) (drop i devs))"
proof (induction devs i data rule: remove_loop.induct)
  case (1 devs i data)
  show ?case
  proof (cases "i < length devs")
    case False
    then show ?thesis by (simp add: remove_loop.simps [of devs i data])
  next
    case True
    then have dr: "drop i devs = devs ! i # drop (Suc i) devs"
      by (simp add: Cons_nth_drop_Suc)
    with "1.prems"(2) have dist: "devid (devs ! i) \<notin> devid ` set (drop (Suc i) devs)"
      "distinct (map devid (drop (Suc i) devs))" by auto
    show ?thesis
    proof (cases "devid (devs ! i) = d")
      case False
      from "1.IH"(2) [OF True "1.prems"(1) False "1.prems"(1) dist(2)] True False "1.prems"(1)
      show ?thesis by (simp add: remove_loop.simps [of devs i data] dr take_Suc_conv_app_nth)
    next
      case eq: True
      have rest: "\<forall>x \<in> set (drop (Suc i) devs). devid x \<noteq> d" using dist(1) eq by (metis image_eqI)
      have "drop (Suc i) (remove_at i devs) = drop (Suc (Suc i)) devs"
        using True by (simp add: remove_at_def min_def)
      then have "\<forall>x \<in> set (drop (Suc i) (remove_at i devs)). devid x \<noteq> d"
        using rest by (metis drop_Suc in_set_dropD tl_drop drop_drop plus_1_eq_Suc)
      from remove_loop_absent [OF "1.prems"(1) this]
      have "remove_loop (remove_at i devs) (Suc i) data = (Inr (), remove_at i devs)" .
      moreover have "filter (\<lambda>x. devid x \<noteq> d) (drop i devs) = drop (Suc i) devs"
        using rest eq by (simp add: dr)
      ultimately show ?thesis
        using True eq "1.prems"(1) by (simp add: remove_loop.simps [of devs i data] remove_at_def)
    qed
  qed
qed

declare event_packet.simps [simp del]

lemma dispatch_attach:
  "dispatch c (event_packet (cls (proto c)) tag (Attach d pid ser loc)) =
     (Inr (), c\<lparr>devices := devices c @ [\<lparr>devid = d, usbprod = pid, serial = ser, location = loc\<rparr>]\<rparr>)"
  by (cases "cls (proto c)") (simp_all add: dispatch_def event_packet.simps)

lemma dispatch_detach:
  "dispatch c (event_packet (cls (proto c)) tag (Detach d)) =
     (case remove_loop (devices c) 0 (VDict [''DeviceID'' \<mapsto> d]) of
        (r, devs) \<Rightarrow> (r, c\<lparr>devices := devs\<rparr>))"
  by (cases "cls (proto c)") (simp_all add: dispatch_def event_packet.simps)

lemma dispatch_detach_absent:
  assumes "d \<notin> devid ` set (devices c)"
  shows "dispatch c (event_packet (cls (proto c)) tag (Detach d)) = (Inr (), c)"
proof -
  have "remove_loop (devices c) 0 (VDict [''DeviceID'' \<mapsto> d]) = (Inr (), devices c)"
    using assms by (intro remove_loop_absent [where d = d]) auto
  then show ?thesis by (simp add: dispatch_detach)
qed

lemma dispatch_detach_distinct:
  assumes "distinct (map devid (devices c))"
  shows "dispatch c (event_packet (cls (proto c)) tag (Detach d)) =
     (Inr (), c\<lparr>devices := filter (\<lambda>x. devid x \<noteq> d) (devices c)\<rparr>)"
  using remove_loop_distinct [of "VDict [''DeviceID'' \<mapsto> d]" d 0 "devices c"] assms
  by (simp add: dispatch_detach)

lemma process_events_distinct:
  "fresh_ids live evs \<Longrightarrow> set (map devid (devices c)) = set live \<Longrightarrow>
   distinct (map devid (devices c)) \<Longrightarrow>
   distinct (map devid (devices (process_events c evs)))"
proof (induction evs arbitrary: c live)
  case Nil
  then show ?case by simp
next
  case (Cons ev evs)
  show ?case
  proof (cases ev)
    case (Attach d pid ser loc)
    let ?c = "c\<lparr>devices := devices c @ [\<lparr>devid = d, usbprod = pid, serial = ser, location = loc\<rparr>]\<rparr>"
    from Cons.prems Attach have f: "d \<notin> set live" "fresh_ids (d # live) evs" by simp_all
    have "set (map devid (devices ?c)) = set (d # live)" using Cons.prems(2) by auto
    moreover have "distinct (map devid (devices ?c))" using Cons.prems(2,3) f(1) by auto
    ultimately have "distinct (map devid (devices (process_events ?c evs)))"
      using Cons.IH [OF f(2)] by blast
    then show ?thesis using Attach by (simp add: dispatch_attach)
  next
    case (Detach d)
    let ?c = "c\<lparr>devices := filter (\<lambda>x. devid x \<noteq> d) (devices c)\<rparr>"
    from Cons.prems Detach have f: "fresh_ids (removeAll d live) evs" by simp
    have "set (map devid (devices ?c)) = set (removeAll d live)" using Cons.prems(2) by auto
    moreover have "distinct (map devid (devices ?c))" using Cons.prems(3) by (simp add: distinct_map_filter)
    ultimately have "distinct (map devid (devices (process_events ?c evs)))"
      using Cons.IH [OF f] by blast
    then show ?thesis using Detach Cons.prems(3) by (simp add: dispatch_detach_distinct)
  qed
qed


text \<open>
  C1, as stated, fails: \<^verbatim>\<open>_processpacket\<close> appends on every attach event without
  looking at the list, so two attach events with the same id leave two entries.
\<close>

theorem duplicate_attach_counterexample:
  "\<not> distinct (map devid (devices (process_events listener0
       [Attach (VInt 1) (VInt 0x12A8) (VStr ''abc'') (VInt 0),
        Attach (VInt 1) (VInt 0x12A8) (VStr ''abc'') (VInt 0)])))"
  unfolding process_events.simps dispatch_attach snd_conv
  by (simp add: listener0_def)

text \<open>
  C1, amended. When the registry holds the ids in \<open>live\<close>, each once, and no attach
  event carries an id that is attached at that moment, the registry never holds an
  id twice; and a detach event for an id that no entry has leaves the connection as
  it was.
\<close>

theorem registry_distinct_for_fresh_ids:
  "(set (map devid (devices c)) = set live \<and> distinct (map devid (devices c))
      \<and> fresh_ids live evs \<longrightarrow>
      distinct (map devid (devices (process_events c evs))))
   \<and> (d \<notin> devid ` set (devices c) \<longrightarrow>
        dispatch c (event_packet (cls (proto c)) tag (Detach d)) = (Inr (), c))"
  using process_events_distinct [of live evs c] dispatch_detach_absent [of d c tag]
  by blast

theorem registry_distinct_for_fresh_ids_witness:
  "fresh_ids [] [Attach (VInt 1) (VInt 0x12A8) (VStr ''abc'') (VInt 0),
                 Attach (VInt 2) (VInt 0x12A8) (VStr ''def'') (VInt 0),
                 Detach (VInt 1),
                 Attach (VInt 1) (VInt 0x12A8) (VStr ''abc'') (VInt 0)]
   \<and> distinct (map devid (devices (process_events listener0
        [Attach (VInt 1) (VInt 0x12A8) (VStr ''abc'') (VInt 0),
         Attach (VInt 2) (VInt 0x12A8) (VStr ''def'') (VInt 0),
         Detach (VInt 1),
         Attach (VInt 1) (VInt 0x12A8) (VStr ''abc'') (VInt 0)])))
   \<and> dispatch listener0 (event_packet (cls (proto listener0)) (VInt 0) (Detach (VInt 7)))
       = (Inr (), listener0)"
proof -
  have a: "set (map devid (devices listener0)) = set []" "distinct (map devid (devices listener0))"
    "VInt 7 \<notin> devid ` set (devices listener0)"
    by (simp_all add: listener0_def)
  have b: "fresh_ids [] [Attach (VInt 1) (VInt 0x12A8) (VStr ''abc'') (VInt 0),
                 Attach (VInt 2) (VInt 0x12A8) (VStr ''def'') (VInt 0),
                 Detach (VInt 1),
                 Attach (VInt 1) (VInt 0x12A8) (VStr ''abc'') (VInt 0)]"
    by simp
  show ?thesis
    using registry_distinct_for_fresh_ids [of listener0 "[]" _ "VInt 7" "VInt 0"] a b by blast
qed

section \<open>The payload dictionary of \<^verbatim>\<open>PlistProtocol.sendpacket\<close>\<close>

lemma plist_sendpacket_heap_ok:
  "PlistProtocol_sendpacket h p req tag payload_arg hp = (r, p', hp') \<Longrightarrow>
   payload = (case payload_arg of None \<Rightarrow> PlistProtocol_sendpacket_default | Some x \<Rightarrow> x) \<Longrightarrow>
   message_type req = Inr mt \<Longrightarrow>
   dicts hp' = (dicts hp)(payload := (dicts hp payload)
         (''ClientVersionString'' \<mapsto> VStr ''usbmux.py by marcan'',
          ''MessageType'' \<mapsto> mt, ''ProgName'' \<mapsto> VStr ''tcprelay''))"
  by (auto simp add: PlistProtocol_sendpacket_def Let_def setitem_def split: sum.splits prod.splits)

lemma plist_sendpacket_heap_error:
  "PlistProtocol_sendpacket h p req tag payload_arg hp = (r, p', hp') \<Longrightarrow>
   payload = (case payload_arg of None \<Rightarrow> PlistProtocol_sendpacket_default | Some x \<Rightarrow> x) \<Longrightarrow>
   message_type req = Inl e \<Longrightarrow>
   dicts hp' = (dicts hp)(payload := (dicts hp payload)
         (''ClientVersionString'' \<mapsto> VStr ''usbmux.py by marcan''))
   \<and> r = Inl e"
  by (auto simp add: PlistProtocol_sendpacket_def Let_def setitem_def split: sum.splits prod.splits)

lemma message_type_cases:
  "message_type (VStr s) = Inr (VStr s)"
  "message_type (VInt 2) = Inr (VStr ''Connect'')"
  "message_type (VInt 3) = Inr (VStr ''Listen'')"
  "message_type (VInt 7) = Inl IndexError"
  by (simp_all add: message_type_def py_index_def)

text \<open>
  C10. \<^verbatim>\<open>PlistProtocol.sendpacket\<close> assigns the keys \<^verbatim>\<open>ClientVersionString\<close>,
  \<^verbatim>\<open>MessageType\<close> and \<^verbatim>\<open>ProgName\<close> into the dictionary it was given (for a
  request type that is a string, or an integer the two-element list has an entry
  for), in the store, where the caller sees them. Two sends that leave the payload
  out work on the one default dictionary: what the first put there is there when
  the second runs, and stays; a second send that raises at the request type leaves
  the message type of the first in place.
\<close>

theorem plist_sendpacket_mutates_payload:
  "(PlistProtocol_sendpacket h p req tag payload_arg hp = (r, p', hp')
      \<and> payload = (case payload_arg of None \<Rightarrow> PlistProtocol_sendpacket_default | Some x \<Rightarrow> x)
      \<and> message_type req = Inr mt \<longrightarrow>
      dicts hp' = (dicts hp)(payload := (dicts hp payload)
         (''ClientVersionString'' \<mapsto> VStr ''usbmux.py by marcan'',
          ''MessageType'' \<mapsto> mt, ''ProgName'' \<mapsto> VStr ''tcprelay'')))
   \<and> (PlistProtocol_sendpacket h p req tag None hp = (r, p', hp')
      \<and> message_type req = Inr mt
      \<and> PlistProtocol_sendpacket h p' req2 tag2 None hp' = (r2, p2, hp2) \<longrightarrow>
      dicts hp' PlistProtocol_sendpacket_default ''MessageType'' = Some mt
      \<and> {''ClientVersionString'', ''MessageType'', ''ProgName''}
           \<subseteq> dom (dicts hp2 PlistProtocol_sendpacket_default)
      \<and> dom (dicts hp' PlistProtocol_sendpacket_default)
           \<subseteq> dom (dicts hp2 PlistProtocol_sendpacket_default)
      \<and> (\<forall>e. message_type req2 = Inl e \<longrightarrow>
            dicts hp2 PlistProtocol_sendpacket_default ''MessageType'' = Some mt))"
proof (intro conjI impI)
  assume "PlistProtocol_sendpacket h p req tag payload_arg hp = (r, p', hp')
      \<and> payload = (case payload_arg of None \<Rightarrow> PlistProtocol_sendpacket_default | Some x \<Rightarrow> x)
      \<and> message_type req = Inr mt"
  then show "dicts hp' = (dicts hp)(payload := (dicts hp payload)
         (''ClientVersionString'' \<mapsto> VStr ''usbmux.py by marcan'',
          ''MessageType'' \<mapsto> mt, ''ProgName'' \<mapsto> VStr ''tcprelay''))"
    using plist_sendpacket_heap_ok by blast
next
  assume a: "PlistProtocol_sendpacket h p req tag None hp = (r, p', hp')
      \<and> message_type req = Inr mt
      \<and> PlistProtocol_sendpacket h p' req2 tag2 None hp' = (r2, p2, hp2)"
  let ?D = PlistProtocol_sendpacket_default
  have h1: "dicts hp' = (dicts hp)(?D := (dicts hp ?D)
         (''ClientVersionString'' \<mapsto> VStr ''usbmux.py by marcan'',
          ''MessageType'' \<mapsto> mt, ''ProgName'' \<mapsto> VStr ''tcprelay''))"
    using a plist_sendpacket_heap_ok [of h p req tag None hp r p' hp' ?D mt] by simp
  have h2: "dicts hp2 ?D = (dicts hp' ?D)(''ClientVersionString'' \<mapsto> VStr ''usbmux.py by marcan'')
            \<and> message_type req2 = Inl e
          \<or> dicts hp2 ?D = (dicts hp' ?D)(''ClientVersionString'' \<mapsto> VStr ''usbmux.py by marcan'',
                ''MessageType'' \<mapsto> mt2, ''ProgName'' \<mapsto> VStr ''tcprelay'')
            \<and> message_type req2 = Inr mt2"
    if "message_type req2 = Inl e \<or> message_type req2 = Inr mt2" for e mt2
    using that a plist_sendpacket_heap_ok [of h p' req2 tag2 None hp' r2 p2 hp2 ?D mt2]
      plist_sendpacket_heap_error [of h p' req2 tag2 None hp' r2 p2 hp2 ?D e]
    by auto
  show "dicts hp' ?D ''MessageType'' = Some mt"
    by (simp add: h1)
  show "{''ClientVersionString'', ''MessageType'', ''ProgName''} \<subseteq> dom (dicts hp2 ?D)"
  proof (cases "message_type req2")
    case (Inl e)
    with h2 [of e undefined] show ?thesis by (auto simp add: h1)
  next
    case (Inr mt2)
    with h2 [of undefined mt2] show ?thesis by (auto simp add: h1)
  qed
  show "dom (dicts hp' ?D) \<subseteq> dom (dicts hp2 ?D)"
  proof (cases "message_type req2")
    case (Inl e)
    with h2 [of e undefined] show ?thesis by auto
  next
    case (Inr mt2)
    with h2 [of undefined mt2] show ?thesis by auto
  qed
  show "\<forall>e. message_type req2 = Inl e \<longrightarrow> dicts hp2 ?D ''MessageType'' = Some mt"
  proof (intro allI impI)
    fix e assume "message_type req2 = Inl e"
    with h2 [of e undefined] show "dicts hp2 ?D ''MessageType'' = Some mt" by (auto simp add: h1)
  qed
qed

theorem plist_sendpacket_mutates_payload_witness:
  "message_type (VStr ''Listen'') = Inr (VStr ''Listen'')
   \<and> message_type (VInt 7) = Inl IndexError
   \<and> dicts (snd (snd (PlistProtocol_sendpacket host0 plist_proto0 (VStr ''Listen'') 1 None heap_init)))
        PlistProtocol_sendpacket_default ''MessageType'' = Some (VStr ''Listen'')
   \<and> dicts (snd (snd (PlistProtocol_sendpacket host0
          (fst (snd (PlistProtocol_sendpacket host0 plist_proto0 (VStr ''Listen'') 1 None heap_init)))
          (VInt 7) 2 None
          (snd (snd (PlistProtocol_sendpacket host0 plist_proto0 (VStr ''Listen'') 1 None heap_init))))))
        PlistProtocol_sendpacket_default ''MessageType'' = Some (VStr ''Listen'')"
  using plist_sendpacket_mutates_payload [of host0 plist_proto0 "VStr ''Listen''" 1 None heap_init
      "fst (PlistProtocol_sendpacket host0 plist_proto0 (VStr ''Listen'') 1 None heap_init)"
      "fst (snd (PlistProtocol_sendpacket host0 plist_proto0 (VStr ''Listen'') 1 None heap_init))"
      "snd (snd (PlistProtocol_sendpacket host0 plist_proto0 (VStr ''Listen'') 1 None heap_init))"
      PlistProtocol_sendpacket_default "VStr ''Listen''" "VInt 7" 2
      "fst (PlistProtocol_sendpacket host0
          (fst (snd (PlistProtocol_sendpacket host0 plist_proto0 (VStr ''Listen'') 1 None heap_init)))
          (VInt 7) 2 None
          (snd (snd (PlistProtocol_sendpacket host0 plist_proto0 (VStr ''Listen'') 1 None heap_init))))"
      "fst (snd (PlistProtocol_sendpacket host0
          (fst (snd (PlistProtocol_sendpacket host0 plist_proto0 (VStr ''Listen'') 1 None heap_init)))
          (VInt 7) 2 None
          (snd (snd (PlistProtocol_sendpacket host0 plist_proto0 (VStr ''Listen'') 1 None heap_init)))))"
      "snd (snd (PlistProtocol_sendpacket host0
          (fst (snd (PlistProtocol_sendpacket host0 plist_proto0 (VStr ''Listen'') 1 None heap_init)))
          (VInt 7) 2 None
          (snd (snd (PlistProtocol_sendpacket host0 plist_proto0 (VStr ''Listen'') 1 None heap_init)))))"]
    message_type_cases
  by simp

section \<open>Packets on the wire\<close>

lemma send_loop_ok:
  "send_loop s msg k = (Inr (), s') \<Longrightarrow> k \<le> length msg \<Longrightarrow>
   outbound s' = outbound s @ drop k msg \<and> inbound s' = inbound s \<and> closed s' = closed s"
proof (induction s msg k rule: send_loop.induct)
  case (1 s msg totalsent)
  show ?case
  proof (cases "totalsent < length msg")
    case False
    with "1.prems" show ?thesis by (simp add: send_loop.simps [of s msg totalsent])
  next
    case True
    then obtain sent s1 where r: "sock_send s (drop totalsent msg) = Inr (sent, s1)"
      and ne: "sent \<noteq> 0" and rec: "send_loop s1 msg (totalsent + sent) = (Inr (), s')"
      using "1.prems"(1)
      by (auto simp add: send_loop.simps [of s msg totalsent] split: sum.splits if_splits)
    have s1: "outbound s1 = outbound s @ take sent (drop totalsent msg)" "inbound s1 = inbound s"
      "closed s1 = closed s" "sent \<le> length msg - totalsent"
      using r by (auto simp add: sock_send_def Let_def split: if_splits list.splits)
    then have le: "totalsent + sent \<le> length msg" using True by simp
    have "take sent (drop totalsent msg) @ drop (totalsent + sent) msg = drop totalsent msg"
      by (metis add.commute append_take_drop_id drop_drop)
    with "1.IH" [OF True r refl ne rec le] s1 show ?thesis by simp
  qed
qed

lemma send_ok:
  "send s msg = (Inr (), s') \<Longrightarrow>
   outbound s' = outbound s @ msg \<and> inbound s' = inbound s \<and> closed s' = closed s"
  using send_loop_ok [of s msg 0 s'] by (simp add: send_def)

lemma send_loop_all:
  "\<not> closed s \<Longrightarrow> accepts s = [] \<Longrightarrow>
   send_loop s msg k = (Inr (), s\<lparr>outbound := outbound s @ drop k msg\<rparr>)"
proof (cases "k < length msg")
  case False
  assume "\<not> closed s" "accepts s = []"
  with False show ?thesis by (simp add: send_loop.simps [of s msg k])
next
  case True
  assume a: "\<not> closed s" "accepts s = []"
  let ?s1 = "s\<lparr>outbound := outbound s @ drop k msg\<rparr>"
  have "sock_send s (drop k msg) = Inr (length msg - k, ?s1)"
    using a by (simp add: sock_send_def)
  moreover have "send_loop ?s1 msg (k + (length msg - k)) = (Inr (), ?s1)"
    using True by (simp add: send_loop.simps [of ?s1 msg])
  ultimately show ?thesis using True by (simp add: send_loop.simps [of s msg k])
qed

lemma send_all:
  "\<not> closed s \<Longrightarrow> accepts s = [] \<Longrightarrow> send s msg = (Inr (), s\<lparr>outbound := outbound s @ msg\<rparr>)"
  using send_loop_all [of s msg 0] by (simp add: send_def)

lemma struct_pack_header:
  "struct_pack bo [FmtI, FmtI, FmtI, FmtI] [VInt a, VInt b, VInt c, VInt d] =
     (if 0 \<le> a \<and> a < 2 ^ 32 \<and> 0 \<le> b \<and> b < 2 ^ 32 \<and> 0 \<le> c \<and> c < 2 ^ 32 \<and> 0 \<le> d \<and> d < 2 ^ 32
      then Inr (uint_bytes bo 4 (nat a) @ uint_bytes bo 4 (nat b) @ uint_bytes bo 4 (nat c)
                @ uint_bytes bo 4 (nat d))
      else Inl StructError)"
  by (simp add: struct_pack_def align_up_def)

lemma struct_pack_header_error:
  "(\<forall>i. c \<noteq> VInt i) \<Longrightarrow> struct_pack bo [FmtI, FmtI, FmtI, FmtI] [VInt a, VInt b, c, VInt d] = Inl StructError"
  by (cases c) (simp_all add: struct_pack_def align_up_def)

lemma struct_unpack_I:
  "struct_unpack bo [FmtI] bs =
     (if length bs \<noteq> 4 then Inl StructError else Inr [VInt (int (bytes_uint bo bs))])"
  by (simp add: struct_unpack_def calcsize_def align_up_def)

lemma struct_unpack_III:
  "struct_unpack bo [FmtI, FmtI, FmtI] bs =
     (if length bs \<noteq> 12 then Inl StructError
      else Inr [VInt (int (bytes_uint bo (take 4 bs))), VInt (int (bytes_uint bo (take 4 (drop 4 bs)))),
                VInt (int (bytes_uint bo (take 4 (drop 8 bs))))])"
  by (simp add: struct_unpack_def calcsize_def align_up_def)

lemma getpacket_frame:
  assumes p: "\<not> connected p" "\<not> closed (socket p)" "[] \<notin> set (inbound (socket p))"
    and data: "concat (inbound (socket p)) = frame (endian h) ver kind tag payload @ rest"
    and rng: "ver < 2 ^ 32" "kind < 2 ^ 32" "tag < 2 ^ 32" "16 + length payload < 2 ^ 32"
  shows "\<exists>p'. BinaryProtocol_getpacket h p =
           ((if VInt (int ver) \<noteq> VInt (VERSION (cls p)) then
               Inl (MuxVersionError ''Version mismatch: expected '' [VInt (VERSION (cls p)), VInt (int ver)])
             else case unpack h (cls p) (VInt (int kind)) payload of
                    Inl e \<Rightarrow> Inl e
                  | Inr pl \<Rightarrow> Inr (VInt (int kind), VInt (int tag), pl)), p')
         \<and> cls p' = cls p \<and> connected p' = connected p
         \<and> \<not> closed (socket p') \<and> [] \<notin> set (inbound (socket p'))
         \<and> concat (inbound (socket p')) = rest
         \<and> outbound (socket p') = outbound (socket p) \<and> accepts (socket p') = accepts (socket p)"
proof -
  let ?bo = "endian h"
  let ?data = "concat (inbound (socket p))"
  let ?n = "length payload"
  have len: "4 \<le> length ?data" using data by (simp add: frame_def)
  from recv_stream [OF p(2,3) len]
  obtain s1 where r1: "recv (socket p) 4 = (Inr (take 4 ?data), s1)"
    and s1: "\<not> closed s1" "[] \<notin> set (inbound s1)" "concat (inbound s1) = drop 4 ?data"
      "outbound s1 = outbound (socket p)" "accepts s1 = accepts (socket p)"
    by auto
  have t4: "take 4 ?data = uint_bytes ?bo 4 (16 + ?n)" using data by (simp add: frame_def)
  have d4: "drop 4 ?data = uint_bytes ?bo 4 ver @ uint_bytes ?bo 4 kind @ uint_bytes ?bo 4 tag
              @ payload @ rest"
    using data by (simp add: frame_def)
  have dlen: "struct_unpack ?bo [FmtI] (take 4 ?data) = Inr [VInt (int (16 + ?n))]"
    using rng by (simp add: t4 struct_unpack_I bytes_uint_uint_bytes)
  have len2: "12 + ?n \<le> length (concat (inbound s1))" using s1(3) d4 by simp
  from recv_stream [OF s1(1,2) len2]
  obtain s2 where r2: "recv s1 (int (12 + ?n)) = (Inr (take (12 + ?n) (concat (inbound s1))), s2)"
    and s2: "\<not> closed s2" "[] \<notin> set (inbound s2)"
      "concat (inbound s2) = drop (12 + ?n) (concat (inbound s1))"
      "outbound s2 = outbound s1" "accepts s2 = accepts s1"
    by auto
  let ?body = "uint_bytes ?bo 4 ver @ uint_bytes ?bo 4 kind @ uint_bytes ?bo 4 tag @ payload"
  have body: "take (12 + ?n) (concat (inbound s1)) = ?body" using s1(3) d4 by simp
  have rest: "concat (inbound s2) = rest" using s2(3) s1(3) d4 by simp
  have r2': "recv s1 (int (16 + ?n) - 4) = (Inr ?body, s2)"
    using r2 body by (simp add: algebra_simps)
  have hdr: "struct_unpack ?bo [FmtI, FmtI, FmtI] (take 12 ?body) =
      Inr [VInt (int ver), VInt (int kind), VInt (int tag)]"
    using rng by (simp add: struct_unpack_III bytes_uint_uint_bytes)
  have pl: "drop 12 ?body = payload" by simp
  have "BinaryProtocol_getpacket h p =
           ((if VInt (int ver) \<noteq> VInt (VERSION (cls p)) then
               Inl (MuxVersionError ''Version mismatch: expected '' [VInt (VERSION (cls p)), VInt (int ver)])
             else case unpack h (cls p) (VInt (int kind)) payload of
                    Inl e \<Rightarrow> Inl e
                  | Inr pl \<Rightarrow> Inr (VInt (int kind), VInt (int tag), pl)), p\<lparr>socket := s2\<rparr>)"
    unfolding BinaryProtocol_getpacket_def using p(1)
    by (simp only: r1 dlen r2' hdr pl if_False prod.case sum.case first_item.simps tuple3.simps
          pyval.case split: sum.splits) (simp split: sum.splits)
  then show ?thesis using s2 s1 rest by auto
qed

section \<open>Encoding and decoding\<close>

lemma binary_sendpacket_ok:
  assumes "BinaryProtocol_sendpacket h p req tag payload = (Inr (), p')"
  shows "\<exists>pb k. pack h (cls p) req payload = Inr pb \<and> req = VInt k \<and> \<not> connected p
           \<and> 0 \<le> tag \<and> tag < 2 ^ 32 \<and> 0 \<le> k \<and> k < 2 ^ 32 \<and> 16 + length pb < 2 ^ 32
           \<and> outbound (socket p') = outbound (socket p)
                @ frame (endian h) (nat (VERSION (cls p))) (nat k) (nat tag) pb
           \<and> cls p' = cls p \<and> connected p' = connected p
           \<and> inbound (socket p') = inbound (socket p) \<and> closed (socket p') = closed (socket p)"
proof -
  from assms obtain pb where pb: "pack h (cls p) req payload = Inr pb" and nc: "\<not> connected p"
    by (auto simp add: BinaryProtocol_sendpacket_def split: sum.splits if_splits)
  from assms pb nc obtain hd where
    hd: "struct_pack (endian h) [FmtI, FmtI, FmtI, FmtI]
           [VInt (16 + int (length pb)), VInt (VERSION (cls p)), req, VInt tag] = Inr hd"
    by (auto simp add: BinaryProtocol_sendpacket_def split: sum.splits)
  then obtain k where k: "req = VInt k"
    using struct_pack_header_error [of req] by (metis sum.distinct(1))
  from hd k have rng: "0 \<le> tag" "tag < 2 ^ 32" "0 \<le> k" "k < 2 ^ 32" "16 + int (length pb) < 2 ^ 32"
      "0 \<le> VERSION (cls p)" "VERSION (cls p) < 2 ^ 32"
    and hdv: "hd = uint_bytes (endian h) 4 (nat (16 + int (length pb)))
        @ uint_bytes (endian h) 4 (nat (VERSION (cls p))) @ uint_bytes (endian h) 4 (nat k)
        @ uint_bytes (endian h) 4 (nat tag)"
    by (auto simp add: struct_pack_header split: if_splits)
  from assms pb nc hd obtain s' where s': "send (socket p) (hd @ pb) = (Inr (), s')"
    and p': "p' = p\<lparr>socket := s'\<rparr>"
    by (auto simp add: BinaryProtocol_sendpacket_def split: sum.splits prod.splits)
  have "nat (16 + int (length pb)) = 16 + length pb" by simp
  then have fr: "hd @ pb = frame (endian h) (nat (VERSION (cls p))) (nat k) (nat tag) pb"
    by (simp add: hdv frame_def)
  have "16 + length pb < 2 ^ 32" using rng(5) by (simp add: nat_less_iff [symmetric] del: of_nat_add)
  with send_ok [OF s'] pb nc k rng fr p' show ?thesis by auto
qed

lemma plist_sendpacket_ok:
  assumes "PlistProtocol_sendpacket h p req tag payload_arg hp = (Inr (), p', hp')"
    and "payload = (case payload_arg of None \<Rightarrow> PlistProtocol_sendpacket_default | Some x \<Rightarrow> x)"
  shows "\<exists>mt b. message_type req = Inr mt \<and> dumps h (dicts hp' payload) = Inr b
           \<and> BinaryProtocol_sendpacket h p TYPE_PLIST tag (VBytes b) = (Inr (), p')
           \<and> dicts hp' = (dicts hp)(payload := (dicts hp payload)
                (''ClientVersionString'' \<mapsto> VStr ''usbmux.py by marcan'',
                 ''MessageType'' \<mapsto> mt, ''ProgName'' \<mapsto> VStr ''tcprelay''))"
  using assms
  by (auto simp add: PlistProtocol_sendpacket_def Let_def setitem_def split: sum.splits prod.splits)

lemma plist_getpacket_frame:
  assumes q: "cls q = PlistProtocol" "\<not> connected q" "\<not> closed (socket q)"
      "[] \<notin> set (inbound (socket q))"
    and data: "concat (inbound (socket q)) = frame (endian h) 1 8 tag b @ rest"
    and rng: "tag < 2 ^ 32" "16 + length b < 2 ^ 32"
    and lib: "loads h b = Inr (VDict d)" and mt: "d ''MessageType'' = Some mt"
  shows "fst (PlistProtocol_getpacket h q) = Inr (mt, VInt (int tag), VDict d)"
proof -
  from getpacket_frame [OF q(2,3,4) data _ _ rng]
  obtain q' where "BinaryProtocol_getpacket h q = (Inr (VInt 8, VInt (int tag), VBytes b), q')"
    using q(1) by (auto simp add: unpack.simps)
  then show ?thesis using lib mt by (simp add: PlistProtocol_getpacket_def TYPE_PLIST_def)
qed

lemma binary_pack_ok:
  "pack h BinaryProtocol req payload = Inr pb \<Longrightarrow> req = VInt 2 \<or> req = VInt 3"
  by (auto split: if_splits)

lemma binary_getpacket_request_frame:
  assumes q: "cls q = BinaryProtocol" "\<not> connected q" "\<not> closed (socket q)"
      "[] \<notin> set (inbound (socket q))"
    and data: "concat (inbound (socket q)) = frame (endian h) 0 k tag pb @ rest"
    and rng: "tag < 2 ^ 32" "16 + length pb < 2 ^ 32" and k: "k = 2 \<or> k = 3"
  shows "fst (BinaryProtocol_getpacket h q) =
           Inl (MuxError ''Invalid incoming request type '' [VInt (int k)])"
proof -
  have "k < 2 ^ 32" using k by auto
  from getpacket_frame [OF q(2,3,4) data _ this rng]
  obtain q' where "BinaryProtocol_getpacket h q =
      (case unpack h BinaryProtocol (VInt (int k)) pb of
         Inl e \<Rightarrow> Inl e | Inr pl \<Rightarrow> Inr (VInt (int k), VInt (int tag), pl), q')"
    using q(1) by auto
  moreover have "unpack h BinaryProtocol (VInt (int k)) pb =
      Inl (MuxError ''Invalid incoming request type '' [VInt (int k)])"
    using k by (auto simp add: unpack.simps)
  ultimately show ?thesis by simp
qed

lemma sendpacket_plist:
  "cls p = PlistProtocol \<Longrightarrow>
   sendpacket h p req tag payload_arg hp = PlistProtocol_sendpacket h p req tag payload_arg hp"
  by (simp add: sendpacket_def)

lemma sendpacket_binary:
  "cls p = BinaryProtocol \<Longrightarrow>
   sendpacket h p req tag payload_arg hp =
     (case BinaryProtocol_sendpacket h p req tag
             (VDict (dicts hp (case payload_arg of None \<Rightarrow> BinaryProtocol_sendpacket_default
                                | Some r \<Rightarrow> r))) of
        (r, p') \<Rightarrow> (r, p', hp))"
  by (simp add: sendpacket_def)

lemma getpacket_plist: "cls p = PlistProtocol \<Longrightarrow> getpacket h p = PlistProtocol_getpacket h p"
  by (simp add: getpacket_def)

lemma getpacket_binary: "cls p = BinaryProtocol \<Longrightarrow> getpacket h p = BinaryProtocol_getpacket h p"
  by (simp add: getpacket_def)

text \<open>
  C2, amended. With the property-list codec, whatever \<^verbatim>\<open>sendpacket\<close> accepts and
  writes is read back by \<^verbatim>\<open>getpacket\<close> as the message type of the request, the
  tag, and the payload dictionary as \<^verbatim>\<open>sendpacket\<close> left it (the caller's with the
  three keys set), when \<^verbatim>\<open>plistlib.loads\<close> inverts \<^verbatim>\<open>plistlib.dumps\<close> on that
  document. With the binary codec, \<^verbatim>\<open>sendpacket\<close> accepts the two request types
  only and \<^verbatim>\<open>getpacket\<close> the three reply and event types only, so what was written
  is never read back: \<^verbatim>\<open>getpacket\<close> raises \<^verbatim>\<open>MuxError\<close> on it.
\<close>

theorem codec_round_trip:
  "(cls p = PlistProtocol \<and> sendpacket h p req tag payload_arg hp = (Inr (), p', hp')
      \<and> payload = (case payload_arg of None \<Rightarrow> PlistProtocol_sendpacket_default | Some x \<Rightarrow> x)
      \<and> (\<forall>b. dumps h (dicts hp' payload) = Inr b \<longrightarrow> loads h b = Inr (VDict (dicts hp' payload)))
      \<and> cls q = PlistProtocol \<and> \<not> connected q \<and> \<not> closed (socket q)
      \<and> [] \<notin> set (inbound (socket q))
      \<and> concat (inbound (socket q)) = drop (length (outbound (socket p))) (outbound (socket p'))
     \<longrightarrow> (\<exists>mt. message_type req = Inr mt
            \<and> fst (getpacket h q) = Inr (mt, VInt tag, VDict (dicts hp' payload))
            \<and> dicts hp' payload = (dicts hp payload)
                 (''ClientVersionString'' \<mapsto> VStr ''usbmux.py by marcan'',
                  ''MessageType'' \<mapsto> mt, ''ProgName'' \<mapsto> VStr ''tcprelay'')))
   \<and> (cls p = BinaryProtocol \<and> sendpacket h p req tag payload_arg hp = (Inr (), p', hp')
      \<and> cls q = BinaryProtocol \<and> \<not> connected q \<and> \<not> closed (socket q)
      \<and> [] \<notin> set (inbound (socket q))
      \<and> concat (inbound (socket q)) = drop (length (outbound (socket p))) (outbound (socket p'))
     \<longrightarrow> fst (getpacket h q) = Inl (MuxError ''Invalid incoming request type '' [req]))"
proof (intro conjI impI)
  assume a: "cls p = PlistProtocol \<and> sendpacket h p req tag payload_arg hp = (Inr (), p', hp')
      \<and> payload = (case payload_arg of None \<Rightarrow> PlistProtocol_sendpacket_default | Some x \<Rightarrow> x)
      \<and> (\<forall>b. dumps h (dicts hp' payload) = Inr b \<longrightarrow> loads h b = Inr (VDict (dicts hp' payload)))
      \<and> cls q = PlistProtocol \<and> \<not> connected q \<and> \<not> closed (socket q)
      \<and> [] \<notin> set (inbound (socket q))
      \<and> concat (inbound (socket q)) = drop (length (outbound (socket p))) (outbound (socket p'))"
  then have cp: "cls p = PlistProtocol" and cq: "cls q = PlistProtocol" by blast+
  from a have "sendpacket h p req tag payload_arg hp = (Inr (), p', hp')" by blast
  then have sp: "PlistProtocol_sendpacket h p req tag payload_arg hp = (Inr (), p', hp')"
    by (simp add: sendpacket_plist [OF cp])
  from plist_sendpacket_ok [OF sp, of payload] a
  obtain mt b where mt: "message_type req = Inr mt"
    and b: "dumps h (dicts hp' payload) = Inr b"
    and bs: "BinaryProtocol_sendpacket h p TYPE_PLIST tag (VBytes b) = (Inr (), p')"
    and d: "dicts hp' = (dicts hp)(payload := (dicts hp payload)
                (''ClientVersionString'' \<mapsto> VStr ''usbmux.py by marcan'',
                 ''MessageType'' \<mapsto> mt, ''ProgName'' \<mapsto> VStr ''tcprelay''))"
    by blast
  from binary_sendpacket_ok [OF bs] cp
  have rng: "0 \<le> tag" "tag < 2 ^ 32" "16 + length b < 2 ^ 32"
    and out: "outbound (socket p') = outbound (socket p) @ frame (endian h) 1 8 (nat tag) b"
    by (auto simp add: TYPE_PLIST_def)
  have data: "concat (inbound (socket q)) = frame (endian h) 1 8 (nat tag) b @ []"
    using a out by simp
  have lib: "loads h b = Inr (VDict (dicts hp' payload))" using a b by blast
  have m: "dicts hp' payload ''MessageType'' = Some mt" by (simp add: d)
  have t: "nat tag < 2 ^ 32" using rng by (simp add: nat_less_iff)
  have q: "\<not> connected q" "\<not> closed (socket q)" "[] \<notin> set (inbound (socket q))"
    using a by blast+
  from plist_getpacket_frame [OF cq q data t rng(3) lib m] rng(1)
  have "fst (getpacket h q) = Inr (mt, VInt tag, VDict (dicts hp' payload))"
    by (simp add: getpacket_plist [OF cq])
  with mt d show "\<exists>mt. message_type req = Inr mt
            \<and> fst (getpacket h q) = Inr (mt, VInt tag, VDict (dicts hp' payload))
            \<and> dicts hp' payload = (dicts hp payload)
                 (''ClientVersionString'' \<mapsto> VStr ''usbmux.py by marcan'',
                  ''MessageType'' \<mapsto> mt, ''ProgName'' \<mapsto> VStr ''tcprelay'')"
    by simp
next
  assume a: "cls p = BinaryProtocol \<and> sendpacket h p req tag payload_arg hp = (Inr (), p', hp')
      \<and> cls q = BinaryProtocol \<and> \<not> connected q \<and> \<not> closed (socket q)
      \<and> [] \<notin> set (inbound (socket q))
      \<and> concat (inbound (socket q)) = drop (length (outbound (socket p))) (outbound (socket p'))"
  then have cp: "cls p = BinaryProtocol" and cq: "cls q = BinaryProtocol" by blast+
  from a have "sendpacket h p req tag payload_arg hp = (Inr (), p', hp')" by blast
  then obtain pl where bs: "BinaryProtocol_sendpacket h p req tag pl = (Inr (), p')"
    by (auto simp add: sendpacket_binary [OF cp] split: prod.splits)
  from binary_sendpacket_ok [OF bs] cp
  obtain pb k where pk: "pack h BinaryProtocol req pl = Inr pb" and k: "req = VInt k"
    and rng: "0 \<le> tag" "tag < 2 ^ 32" "0 \<le> k" "16 + length pb < 2 ^ 32"
    and out: "outbound (socket p') = outbound (socket p) @ frame (endian h) 0 (nat k) (nat tag) pb"
    by auto
  from binary_pack_ok [OF pk] k have k23: "nat k = 2 \<or> nat k = 3" by auto
  have data: "concat (inbound (socket q)) = frame (endian h) 0 (nat k) (nat tag) pb @ []"
    using a out by simp
  have t: "nat tag < 2 ^ 32" using rng by (simp add: nat_less_iff)
  have q: "\<not> connected q" "\<not> closed (socket q)" "[] \<notin> set (inbound (socket q))"
    using a by blast+
  from binary_getpacket_request_frame [OF cq q data t rng(4) k23] k rng(3)
  show "fst (getpacket h q) = Inl (MuxError ''Invalid incoming request type '' [req])"
    by (simp add: getpacket_binary [OF cq])
qed

lemma binary_sendpacket_eval:
  assumes "\<not> connected p" "\<not> closed (socket p)" "accepts (socket p) = []"
    and "pack h (cls p) (VInt k) payload = Inr pb"
    and "0 \<le> k" "k < 2 ^ 32" "0 \<le> tag" "tag < 2 ^ 32" "16 + int (length pb) < 2 ^ 32"
  shows "BinaryProtocol_sendpacket h p (VInt k) tag payload =
     (Inr (), p\<lparr>socket := (socket p)\<lparr>outbound := outbound (socket p)
         @ frame (endian h) (nat (VERSION (cls p))) (nat k) (nat tag) pb\<rparr>\<rparr>)"
proof -
  have v: "0 \<le> VERSION (cls p)" "VERSION (cls p) < 2 ^ 32" by (cases "cls p"; simp)+
  have n: "nat (16 + int (length pb)) = 16 + length pb" by simp
  show ?thesis
    using assms v
    by (simp add: BinaryProtocol_sendpacket_def struct_pack_header send_all frame_def n
          del: of_nat_add)
qed

lemma toy_dumps_listen:
  "toy_dumps [''ClientVersionString'' \<mapsto> VStr ''usbmux.py by marcan'',
              ''MessageType'' \<mapsto> VStr ''Listen'', ''ProgName'' \<mapsto> VStr ''tcprelay'']
   = Inr [0x4C, 0x69, 0x73, 0x74, 0x65, 0x6E]"
  by (simp add: toy_dumps_def)

lemma toy_loads_listen:
  "toy_loads [0x4C, 0x69, 0x73, 0x74, 0x65, 0x6E] =
   Inr (VDict [''ClientVersionString'' \<mapsto> VStr ''usbmux.py by marcan'',
              ''MessageType'' \<mapsto> VStr ''Listen'', ''ProgName'' \<mapsto> VStr ''tcprelay''])"
  by (simp add: toy_loads_def char_of_def bit_0 Let_def)

lemma sendpacket_listen_plist:
  "sendpacket host0 plist_proto0 (VStr ''Listen'') 1 None heap_init =
     (Inr (),
      plist_proto0\<lparr>socket := sock0\<lparr>outbound :=
        [22, 0, 0, 0, 1, 0, 0, 0, 8, 0, 0, 0, 1, 0, 0, 0, 0x4C, 0x69, 0x73, 0x74, 0x65, 0x6E]\<rparr>\<rparr>,
      heap_init\<lparr>dicts := (dicts heap_init)(PlistProtocol_sendpacket_default :=
        [''ClientVersionString'' \<mapsto> VStr ''usbmux.py by marcan'',
         ''MessageType'' \<mapsto> VStr ''Listen'', ''ProgName'' \<mapsto> VStr ''tcprelay''])\<rparr>)"
proof -
  have p: "\<not> connected plist_proto0" "\<not> closed (socket plist_proto0)"
    "accepts (socket plist_proto0) = []" "cls plist_proto0 = PlistProtocol"
    "socket plist_proto0 = sock0" "outbound sock0 = []"
    by (simp_all add: plist_proto0_def sock0_def)
  have b: "BinaryProtocol_sendpacket host0 plist_proto0 (VInt 8) 1
             (VBytes [0x4C, 0x69, 0x73, 0x74, 0x65, 0x6E]) =
     (Inr (), plist_proto0\<lparr>socket := sock0\<lparr>outbound :=
        [22, 0, 0, 0, 1, 0, 0, 0, 8, 0, 0, 0, 1, 0, 0, 0, 0x4C, 0x69, 0x73, 0x74, 0x65, 0x6E]\<rparr>\<rparr>)"
    using binary_sendpacket_eval [of plist_proto0 host0 8 "VBytes [0x4C, 0x69, 0x73, 0x74, 0x65, 0x6E]"
        "[0x4C, 0x69, 0x73, 0x74, 0x65, 0x6E]" 1] p
    by (simp add: frame_def uint_bytes_def upt_conv_Cons host0_def)
  have d: "dumps host0 = toy_dumps" by (simp add: host0_def)
  show ?thesis
    unfolding sendpacket_plist [OF p(4)]
    by (simp add: PlistProtocol_sendpacket_def Let_def setitem_def message_type_def heap_init_def
          d toy_dumps_listen TYPE_PLIST_def b)
qed

lemma sendpacket_listen_binary:
  "sendpacket host0 binary_proto0 (VInt 3) 1 None heap_init =
     (Inr (),
      binary_proto0\<lparr>socket := sock0\<lparr>outbound :=
        [16, 0, 0, 0, 0, 0, 0, 0, 3, 0, 0, 0, 1, 0, 0, 0]\<rparr>\<rparr>,
      heap_init)"
proof -
  have p: "\<not> connected binary_proto0" "\<not> closed (socket binary_proto0)"
    "accepts (socket binary_proto0) = []" "cls binary_proto0 = BinaryProtocol"
    "socket binary_proto0 = sock0" "outbound sock0 = []"
    by (simp_all add: binary_proto0_def sock0_def)
  have "BinaryProtocol_sendpacket host0 binary_proto0 (VInt 3) 1 (VDict Map.empty) =
     (Inr (), binary_proto0\<lparr>socket := sock0\<lparr>outbound :=
        [16, 0, 0, 0, 0, 0, 0, 0, 3, 0, 0, 0, 1, 0, 0, 0]\<rparr>\<rparr>)"
    using binary_sendpacket_eval [of binary_proto0 host0 3 "VDict Map.empty" "[]" 1] p
    by (simp add: frame_def uint_bytes_def upt_conv_Cons host0_def)
  then show ?thesis
    unfolding sendpacket_binary [OF p(4)] by (simp add: heap_init_def)
qed

lemma listen_frame_receiver:
  "cls (binary_proto0\<lparr>socket := sock0\<lparr>inbound := [bs]\<rparr>\<rparr>) = BinaryProtocol"
  "cls (plist_proto0\<lparr>socket := sock0\<lparr>inbound := [bs]\<rparr>\<rparr>) = PlistProtocol"
  "\<not> connected (binary_proto0\<lparr>socket := sock0\<lparr>inbound := [bs]\<rparr>\<rparr>)"
  "\<not> connected (plist_proto0\<lparr>socket := sock0\<lparr>inbound := [bs]\<rparr>\<rparr>)"
  "\<not> closed (socket (binary_proto0\<lparr>socket := sock0\<lparr>inbound := [bs]\<rparr>\<rparr>))"
  "\<not> closed (socket (plist_proto0\<lparr>socket := sock0\<lparr>inbound := [bs]\<rparr>\<rparr>))"
  "inbound (socket (binary_proto0\<lparr>socket := sock0\<lparr>inbound := [bs]\<rparr>\<rparr>)) = [bs]"
  "inbound (socket (plist_proto0\<lparr>socket := sock0\<lparr>inbound := [bs]\<rparr>\<rparr>)) = [bs]"
  "outbound (socket binary_proto0) = []" "outbound (socket plist_proto0) = []"
  "cls binary_proto0 = BinaryProtocol" "cls plist_proto0 = PlistProtocol"
  by (simp_all add: binary_proto0_def plist_proto0_def sock0_def)

text \<open>
  C2, as stated, fails for the binary codec: the frame of an accepted \<^verbatim>\<open>Listen\<close>
  request is rejected by \<^verbatim>\<open>getpacket\<close>.
\<close>

theorem binary_round_trip_counterexample:
  "fst (sendpacket host0 binary_proto0 (TYPE_LISTEN BinaryProtocol) 1 None heap_init) = Inr ()
   \<and> outbound (socket (fst (snd (sendpacket host0 binary_proto0 (TYPE_LISTEN BinaryProtocol) 1
         None heap_init))))
       = [16, 0, 0, 0, 0, 0, 0, 0, 3, 0, 0, 0, 1, 0, 0, 0]
   \<and> fst (getpacket host0 (binary_proto0\<lparr>socket := sock0\<lparr>inbound :=
          [[16, 0, 0, 0, 0, 0, 0, 0, 3, 0, 0, 0, 1, 0, 0, 0]]\<rparr>\<rparr>))
       = Inl (MuxError ''Invalid incoming request type '' [VInt 3])"
proof -
  let ?q = "binary_proto0\<lparr>socket := sock0\<lparr>inbound :=
          [[16, 0, 0, 0, 0, 0, 0, 0, 3, 0, 0, 0, 1, 0, 0, 0]]\<rparr>\<rparr>"
  have "concat (inbound (socket ?q)) = frame (endian host0) 0 3 1 [] @ []"
    by (simp add: listen_frame_receiver frame_def uint_bytes_def upt_conv_Cons)
  from binary_getpacket_request_frame [OF listen_frame_receiver(1,3,5) _ this]
  have "fst (BinaryProtocol_getpacket host0 ?q) =
      Inl (MuxError ''Invalid incoming request type '' [VInt 3])"
    by (simp add: listen_frame_receiver)
  then show ?thesis
    by (simp add: sendpacket_listen_binary getpacket_binary [OF listen_frame_receiver(1)])
qed

theorem codec_round_trip_witness:
  "fst (sendpacket host0 plist_proto0 (TYPE_LISTEN PlistProtocol) 1 None heap_init) = Inr ()
   \<and> outbound (socket (fst (snd (sendpacket host0 plist_proto0 (TYPE_LISTEN PlistProtocol) 1
         None heap_init))))
       = [22, 0, 0, 0, 1, 0, 0, 0, 8, 0, 0, 0, 1, 0, 0, 0, 0x4C, 0x69, 0x73, 0x74, 0x65, 0x6E]
   \<and> fst (getpacket host0 (plist_proto0\<lparr>socket := sock0\<lparr>inbound :=
          [[22, 0, 0, 0, 1, 0, 0, 0, 8, 0, 0, 0, 1, 0, 0, 0, 0x4C, 0x69, 0x73, 0x74, 0x65, 0x6E]]\<rparr>\<rparr>))
       = Inr (VStr ''Listen'', VInt 1,
              VDict [''ClientVersionString'' \<mapsto> VStr ''usbmux.py by marcan'',
                     ''MessageType'' \<mapsto> VStr ''Listen'', ''ProgName'' \<mapsto> VStr ''tcprelay''])
   \<and> fst (getpacket host0 (binary_proto0\<lparr>socket := sock0\<lparr>inbound :=
          [[16, 0, 0, 0, 0, 0, 0, 0, 3, 0, 0, 0, 1, 0, 0, 0]]\<rparr>\<rparr>))
       = Inl (MuxError ''Invalid incoming request type '' [VInt 3])"
proof -
  let ?bytes = "[22, 0, 0, 0, 1, 0, 0, 0, 8, 0, 0, 0, 1, 0, 0, 0, 0x4C, 0x69, 0x73, 0x74, 0x65, 0x6E] :: byte list"
  let ?q = "plist_proto0\<lparr>socket := sock0\<lparr>inbound := [?bytes]\<rparr>\<rparr>"
  let ?p' = "plist_proto0\<lparr>socket := sock0\<lparr>outbound := ?bytes\<rparr>\<rparr>"
  let ?d = "[''ClientVersionString'' \<mapsto> VStr ''usbmux.py by marcan'',
         ''MessageType'' \<mapsto> VStr ''Listen'', ''ProgName'' \<mapsto> VStr ''tcprelay'']"
  let ?hp' = "heap_init\<lparr>dicts := (dicts heap_init)(PlistProtocol_sendpacket_default := ?d)\<rparr>"
  let ?bbytes = "[16, 0, 0, 0, 0, 0, 0, 0, 3, 0, 0, 0, 1, 0, 0, 0] :: byte list"
  let ?bq = "binary_proto0\<lparr>socket := sock0\<lparr>inbound := [?bbytes]\<rparr>\<rparr>"
  let ?bp' = "binary_proto0\<lparr>socket := sock0\<lparr>outbound := ?bbytes\<rparr>\<rparr>"
  have lib: "\<forall>b. dumps host0 (dicts ?hp' PlistProtocol_sendpacket_default) = Inr b \<longrightarrow>
       loads host0 b = Inr (VDict (dicts ?hp' PlistProtocol_sendpacket_default))"
    by (simp add: host0_def toy_dumps_listen toy_loads_listen)
  have out: "concat (inbound (socket ?q)) =
      drop (length (outbound (socket plist_proto0))) (outbound (socket ?p'))"
    "concat (inbound (socket ?bq)) =
      drop (length (outbound (socket binary_proto0))) (outbound (socket ?bp'))"
    by (simp_all add: plist_proto0_def binary_proto0_def sock0_def)
  have ne: "[] \<notin> set (inbound (socket ?q))" "[] \<notin> set (inbound (socket ?bq))"
    by (simp_all add: listen_frame_receiver)
  have s1: "sendpacket host0 plist_proto0 (VStr ''Listen'') 1 None heap_init = (Inr (), ?p', ?hp')"
    by (rule sendpacket_listen_plist)
  have s2: "sendpacket host0 binary_proto0 (VInt 3) 1 None heap_init = (Inr (), ?bp', heap_init)"
    by (rule sendpacket_listen_binary)
  have "message_type (VStr ''Listen'') = Inr (VStr ''Listen'')" by (simp add: message_type_def)
  with codec_round_trip [of plist_proto0 host0 "VStr ''Listen''" 1 None heap_init ?p' ?hp'
      PlistProtocol_sendpacket_default ?q] s1 lib out(1) ne(1) listen_frame_receiver
  have a: "fst (getpacket host0 ?q) = Inr (VStr ''Listen'', VInt 1, VDict ?d)"
    by simp
  from codec_round_trip [of binary_proto0 host0 "VInt 3" 1 None heap_init ?bp' heap_init
      _ ?bq] s2 out(2) ne(2) listen_frame_receiver
  have b: "fst (getpacket host0 ?bq) = Inl (MuxError ''Invalid incoming request type '' [VInt 3])"
    by simp
  show ?thesis using a b by (simp add: s1 s2)
qed

section \<open>Requests and replies\<close>

lemma sock_recv_keeps:
  "sock_recv s k = Inr (chunk, s') \<Longrightarrow>
   outbound s' = outbound s \<and> accepts s' = accepts s \<and> closed s' = closed s"
  by (auto simp add: sock_recv_def split: if_splits list.splits)

lemma recv_loop_keeps:
  "recv_loop s sz msg = (r, s') \<Longrightarrow>
   outbound s' = outbound s \<and> accepts s' = accepts s \<and> closed s' = closed s"
proof (induction s sz msg rule: recv_loop.induct)
  case (1 s sz msg)
  show ?case
  proof (cases "int (length msg) < sz")
    case False
    with "1.prems" show ?thesis by (simp add: recv_loop.simps [of s sz msg])
  next
    case True
    show ?thesis
    proof (cases "sock_recv s (nat (sz - int (length msg)))")
      case (Inl e)
      with True "1.prems" show ?thesis by (simp add: recv_loop.simps [of s sz msg])
    next
      case (Inr pr)
      obtain chunk s1 where pr: "pr = (chunk, s1)" by (cases pr)
      note k = sock_recv_keeps [OF Inr [unfolded pr]]
      show ?thesis
      proof (cases "chunk = []")
        case True
        with \<open>int (length msg) < sz\<close> Inr pr "1.prems" k show ?thesis
          by (simp add: recv_loop.simps [of s sz msg])
      next
        case False
        with \<open>int (length msg) < sz\<close> Inr pr "1.prems"
        have "recv_loop s1 sz (msg @ chunk) = (r, s')"
          by (simp add: recv_loop.simps [of s sz msg])
        from "1.IH" [OF \<open>int (length msg) < sz\<close> Inr [unfolded pr] refl False this] k
        show ?thesis by simp
      qed
    qed
  qed
qed

lemma recv_keeps:
  "recv s sz = (r, s') \<Longrightarrow>
   outbound s' = outbound s \<and> accepts s' = accepts s \<and> closed s' = closed s"
  using recv_loop_keeps [of s sz "[]" r s'] by (simp add: recv_def)

lemma binary_getpacket_keeps:
  assumes "BinaryProtocol_getpacket h p = (r, p')"
  shows "outbound (socket p') = outbound (socket p) \<and> cls p' = cls p \<and> connected p' = connected p"
proof (cases "connected p")
  case True
  with assms show ?thesis by (simp add: BinaryProtocol_getpacket_def)
next
  case False
  obtain r1 s1 where r1: "recv (socket p) 4 = (r1, s1)" by (cases "recv (socket p) 4")
  note k1 = recv_keeps [OF r1]
  have "\<exists>s2. p' = p\<lparr>socket := s2\<rparr> \<and> outbound s2 = outbound (socket p)"
  proof (cases "\<exists>dlen. \<exists>vs. r1 = Inr vs \<and> struct_unpack (endian h) [FmtI] vs = Inr [VInt dlen]")
    case True
    then obtain dlen bs where d: "r1 = Inr bs" "struct_unpack (endian h) [FmtI] bs = Inr [VInt dlen]"
      by blast
    obtain r2 s2 where r2: "recv s1 (dlen - 4) = (r2, s2)" by (cases "recv s1 (dlen - 4)")
    note k2 = recv_keeps [OF r2]
    from assms False r1 d r2 have "p' = p\<lparr>socket := s2\<rparr>"
      by (auto simp add: BinaryProtocol_getpacket_def split: sum.splits prod.splits if_splits)
    with k1 k2 show ?thesis by auto
  next
    case False
    have "p' = p\<lparr>socket := s1\<rparr>"
    proof (cases r1)
      case (Inl e)
      with assms \<open>\<not> connected p\<close> r1 show ?thesis by (simp add: BinaryProtocol_getpacket_def)
    next
      case (Inr bs)
      with False have "\<forall>dlen. struct_unpack (endian h) [FmtI] bs \<noteq> Inr [VInt dlen]" by blast
      then have "\<exists>e. struct_unpack (endian h) [FmtI] bs = Inl e"
        by (auto simp add: struct_unpack_I)
      with assms \<open>\<not> connected p\<close> r1 Inr show ?thesis
        by (auto simp add: BinaryProtocol_getpacket_def)
    qed
    with k1 show ?thesis by auto
  qed
  then show ?thesis by auto
qed

lemma getpacket_keeps:
  assumes "getpacket h p = (r, p')"
  shows "outbound (socket p') = outbound (socket p) \<and> cls p' = cls p \<and> connected p' = connected p"
proof (cases "cls p")
  case BinaryProtocol
  with assms binary_getpacket_keeps show ?thesis by (simp add: getpacket_def)
next
  case PlistProtocol
  obtain r0 p0 where b: "BinaryProtocol_getpacket h p = (r0, p0)"
    by (cases "BinaryProtocol_getpacket h p")
  with assms PlistProtocol have "p' = p0"
    by (auto simp add: getpacket_def PlistProtocol_getpacket_def
        split: sum.splits prod.splits if_splits pyval.splits)
  with binary_getpacket_keeps [OF b] show ?thesis by simp
qed

lemma sendpacket_ok_frame:
  assumes "sendpacket h p req tag arg hp = (Inr (), p', hp')"
  shows "\<exists>ver k pb. outbound (socket p') = outbound (socket p) @ frame (endian h) ver k (nat tag) pb
           \<and> 0 \<le> tag \<and> tag < 2 ^ 32 \<and> cls p' = cls p \<and> connected p' = connected p
           \<and> \<not> connected p"
proof (cases "cls p")
  case BinaryProtocol
  with assms obtain pl where "BinaryProtocol_sendpacket h p req tag pl = (Inr (), p')"
    by (auto simp add: sendpacket_binary split: prod.splits)
  from binary_sendpacket_ok [OF this] show ?thesis by blast
next
  case PlistProtocol
  with assms have "PlistProtocol_sendpacket h p req tag arg hp = (Inr (), p', hp')"
    by (simp add: sendpacket_plist)
  from plist_sendpacket_ok [OF this refl]
  obtain b where "BinaryProtocol_sendpacket h p TYPE_PLIST tag (VBytes b) = (Inr (), p')" by blast
  from binary_sendpacket_ok [OF this] show ?thesis by blast
qed

lemma frame_tag_field:
  "tag < 2 ^ 32 \<Longrightarrow>
   bytes_uint bo (take 4 (drop 12 (frame bo ver k tag pb))) = tag \<and> 16 \<le> length (frame bo ver k tag pb)"
  by (simp add: frame_def bytes_uint_uint_bytes)

lemma getreply_keeps:
  assumes "getreply h c = (r, c')"
  shows "outbound (socket (proto c')) = outbound (socket (proto c)) \<and> pkttag c' = pkttag c
         \<and> devices c' = devices c \<and> cls (proto c') = cls (proto c)
         \<and> connected (proto c') = connected (proto c)"
proof -
  obtain r0 p0 where g: "getpacket h (proto c) = (r0, p0)" by (cases "getpacket h (proto c)")
  with assms have "c' = c\<lparr>proto := p0\<rparr>"
    by (auto simp add: getreply_def split: sum.splits prod.splits if_splits)
  with getpacket_keeps [OF g] show ?thesis by simp
qed

lemma exchange_steps:
  assumes "exchange h c req arg hp = (r, c', hp')"
  obtains (send_failed) e p1 where
      "sendpacket h (proto c) req (pkttag c)
         (Some (case arg of None \<Rightarrow> exchange_default | Some x \<Rightarrow> x)) hp = (Inl e, p1, hp')"
      "r = Inl e" "c' = c\<lparr>pkttag := pkttag c + 1, proto := p1\<rparr>"
  | (sent) p1 rr c2 where
      "sendpacket h (proto c) req (pkttag c)
         (Some (case arg of None \<Rightarrow> exchange_default | Some x \<Rightarrow> x)) hp = (Inr (), p1, hp')"
      "getreply h (c\<lparr>pkttag := pkttag c + 1, proto := p1\<rparr>) = (rr, c2)" "c' = c2"
      "r = (case rr of
              Inl e \<Rightarrow> Inl e
            | Inr (recvtag, data) \<Rightarrow>
                if recvtag \<noteq> VInt (pkttag c) then
                  Inl (MuxError ''Reply tag mismatch: expected '' [VInt (pkttag c), recvtag])
                else getitem data ''Number'')"
proof -
  obtain sr p1 hp1 where s: "sendpacket h (proto c) req (pkttag c)
         (Some (case arg of None \<Rightarrow> exchange_default | Some x \<Rightarrow> x)) hp = (sr, p1, hp1)"
    by (metis prod_cases3)
  show ?thesis
  proof (cases sr)
    case (Inl e)
    with assms s have "r = Inl e" "c' = c\<lparr>pkttag := pkttag c + 1, proto := p1\<rparr>" "hp' = hp1"
      by (simp_all add: exchange_def Let_def)
    with s Inl send_failed show ?thesis by blast
  next
    case (Inr u)
    obtain rr c2 where g: "getreply h (c\<lparr>pkttag := pkttag c + 1, proto := p1\<rparr>) = (rr, c2)"
      by (cases "getreply h (c\<lparr>pkttag := pkttag c + 1, proto := p1\<rparr>)")
    with assms s Inr have "c' = c2" "hp' = hp1"
      "r = (case rr of
              Inl e \<Rightarrow> Inl e
            | Inr (recvtag, data) \<Rightarrow>
                if recvtag \<noteq> VInt (pkttag c) then
                  Inl (MuxError ''Reply tag mismatch: expected '' [VInt (pkttag c), recvtag])
                else getitem data ''Number'')"
      by (auto simp add: exchange_def Let_def split: sum.splits prod.splits if_splits)
    with s Inr g sent show ?thesis by simp
  qed
qed

section \<open>Tags\<close>

text \<open>The definitions a run on concrete sockets unfolds.\<close>

lemmas eval_defs =
  exchange_def Let_def sendpacket_def BinaryProtocol_sendpacket_def exchange_default_def
  BinaryProtocol_sendpacket_default_def heap_init_def
  struct_pack_def align_up_def uint_bytes_def upt_conv_Cons send_def send_loop.simps sock_send_def
  getreply_def getpacket_def BinaryProtocol_getpacket_def recv_def recv_loop.simps sock_recv_def
  struct_unpack_def calcsize_def bytes_uint_def unpack.simps host0_def
  MuxConnection_init_def proto_init_def daemon_sock_def result_frame_def binary_conn_def

lemma exchange_pkttag:
  assumes "exchange h c req arg hp = (r, c', hp')"
  shows "pkttag c' = pkttag c + 1"
  using assms
proof (cases rule: exchange_steps)
  case (send_failed e p1)
  then show ?thesis by simp
next
  case (sent p1 rr c2)
  with getreply_keeps [OF sent(2)] show ?thesis by simp
qed

lemma exchange_ok_sent:
  assumes "exchange h c req arg hp = (Inr n, c', hp')"
  shows "\<exists>fr. outbound (socket (proto c')) = outbound (socket (proto c)) @ fr \<and> 16 \<le> length fr
              \<and> int (bytes_uint (endian h) (take 4 (drop 12 fr))) = pkttag c"
  using assms
proof (cases rule: exchange_steps)
  case (send_failed e p1)
  then show ?thesis by simp
next
  case (sent p1 rr c2)
  from sendpacket_ok_frame [OF sent(1)]
  obtain ver k pb where o: "outbound (socket p1) = outbound (socket (proto c))
        @ frame (endian h) ver k (nat (pkttag c)) pb"
    and t: "0 \<le> pkttag c" "pkttag c < 2 ^ 32" by blast
  have "nat (pkttag c) < 2 ^ 32" using t by (simp add: nat_less_iff)
  from frame_tag_field [OF this, of "endian h" ver k pb] t(1)
  have "int (bytes_uint (endian h) (take 4 (drop 12 (frame (endian h) ver k (nat (pkttag c)) pb))))
          = pkttag c"
    "16 \<le> length (frame (endian h) ver k (nat (pkttag c)) pb)" by simp_all
  with getreply_keeps [OF sent(2)] sent(3) o show ?thesis by auto
qed

text \<open>
  C4. A new connection starts with tag 1. Every \<^verbatim>\<open>_exchange\<close> moves the counter on
  by one, whatever its outcome, and one that returns has put on the socket one frame
  whose tag field is the counter's value before the call: successive exchanges send
  1, 2, 3, ... When the request has gone out and the reply is a \<^verbatim>\<open>Result\<close> with
  another tag, \<^verbatim>\<open>_exchange\<close> raises \<^verbatim>\<open>MuxError\<close> (reply tag mismatch).
\<close>

theorem exchange_tags:
  "(MuxConnection_init h conn k = Inr c0 \<longrightarrow> pkttag c0 = 1)
   \<and> (exchange h c req arg hp = (r, c', hp') \<longrightarrow> pkttag c' = pkttag c + 1)
   \<and> (exchange h c req arg hp = (Inr n, c', hp') \<longrightarrow>
        (\<exists>fr. outbound (socket (proto c')) = outbound (socket (proto c)) @ fr \<and> 16 \<le> length fr
              \<and> int (bytes_uint (endian h) (take 4 (drop 12 fr))) = pkttag c))
   \<and> (exchange h c req arg hp = (r, c', hp')
        \<and> sendpacket h (proto c) req (pkttag c)
             (Some (case arg of None \<Rightarrow> exchange_default | Some x \<Rightarrow> x)) hp = (Inr (), p1, hp1)
        \<and> getreply h (c\<lparr>pkttag := pkttag c + 1, proto := p1\<rparr>) = (Inr (recvtag, data), c2)
        \<and> recvtag \<noteq> VInt (pkttag c) \<longrightarrow>
        r = Inl (MuxError ''Reply tag mismatch: expected '' [VInt (pkttag c), recvtag]))"
proof (intro conjI impI)
  assume "MuxConnection_init h conn k = Inr c0"
  then show "pkttag c0 = 1"
    by (auto simp add: MuxConnection_init_def split: option.splits sum.splits)
next
  assume "exchange h c req arg hp = (r, c', hp')"
  then show "pkttag c' = pkttag c + 1" by (rule exchange_pkttag)
next
  assume "exchange h c req arg hp = (Inr n, c', hp')"
  then show "\<exists>fr. outbound (socket (proto c')) = outbound (socket (proto c)) @ fr \<and> 16 \<le> length fr
              \<and> int (bytes_uint (endian h) (take 4 (drop 12 fr))) = pkttag c"
    by (rule exchange_ok_sent)
next
  assume a: "exchange h c req arg hp = (r, c', hp')
        \<and> sendpacket h (proto c) req (pkttag c)
             (Some (case arg of None \<Rightarrow> exchange_default | Some x \<Rightarrow> x)) hp = (Inr (), p1, hp1)
        \<and> getreply h (c\<lparr>pkttag := pkttag c + 1, proto := p1\<rparr>) = (Inr (recvtag, data), c2)
        \<and> recvtag \<noteq> VInt (pkttag c)"
  then have e: "exchange h c req arg hp = (r, c', hp')" by blast
  from e show "r = Inl (MuxError ''Reply tag mismatch: expected '' [VInt (pkttag c), recvtag])"
  proof (cases rule: exchange_steps)
    case (send_failed e p1)
    with a show ?thesis by simp
  next
    case (sent p1' rr c2')
    with a show ?thesis by auto
  qed
qed

lemma exchange_listen_1:
  "exchange host0 (binary_conn [result_frame 0 1 0, result_frame 0 2 0]) (VInt 3) None heap_init =
     (Inr (VInt 0),
      \<lparr>proto = \<lparr>cls = BinaryProtocol,
                socket = \<lparr>inbound = [result_frame 0 2 0],
                           outbound = [16, 0, 0, 0, 0, 0, 0, 0, 3, 0, 0, 0, 1, 0, 0, 0],
                           accepts = [], closed = False\<rparr>,
                connected = False\<rparr>,
       pkttag = 2, devices = []\<rparr>,
      heap_init)"
  by (simp add: eval_defs)

lemma exchange_listen_2:
  "exchange host0
      \<lparr>proto = \<lparr>cls = BinaryProtocol,
                socket = \<lparr>inbound = [result_frame 0 2 0],
                           outbound = [16, 0, 0, 0, 0, 0, 0, 0, 3, 0, 0, 0, 1, 0, 0, 0],
                           accepts = [], closed = False\<rparr>,
                connected = False\<rparr>,
       pkttag = 2, devices = []\<rparr> (VInt 3) None heap_init =
     (Inr (VInt 0),
      \<lparr>proto = \<lparr>cls = BinaryProtocol,
                socket = \<lparr>inbound = [],
                           outbound = [16, 0, 0, 0, 0, 0, 0, 0, 3, 0, 0, 0, 1, 0, 0, 0,
                                       16, 0, 0, 0, 0, 0, 0, 0, 3, 0, 0, 0, 2, 0, 0, 0],
                           accepts = [], closed = False\<rparr>,
                connected = False\<rparr>,
       pkttag = 3, devices = []\<rparr>,
      heap_init)"
  by (simp add: eval_defs)

lemma exchange_listen_mismatch:
  "fst (exchange host0 (binary_conn [result_frame 0 7 0]) (VInt 3) None heap_init) =
     Inl (MuxError ''Reply tag mismatch: expected '' [VInt 1, VInt 7])"
  by (simp add: eval_defs)

lemma init_binary_conn:
  "MuxConnection_init host0 (Some (daemon_sock segs)) BinaryProtocol = Inr (binary_conn segs)"
  by (simp add: MuxConnection_init_def proto_init_def binary_conn_def)

lemma sendpacket_mismatch_run:
  "sendpacket host0 (proto (binary_conn [result_frame 0 7 0])) (VInt 3)
      (pkttag (binary_conn [result_frame 0 7 0]))
      (Some (case None of None \<Rightarrow> exchange_default | Some x \<Rightarrow> x)) heap_init =
     (Inr (),
      \<lparr>cls = BinaryProtocol,
       socket = \<lparr>inbound = [result_frame 0 7 0],
                  outbound = [16, 0, 0, 0, 0, 0, 0, 0, 3, 0, 0, 0, 1, 0, 0, 0],
                  accepts = [], closed = False\<rparr>,
       connected = False\<rparr>,
      heap_init)"
  by (simp add: eval_defs)

lemma getreply_mismatch_run:
  "getreply host0
     ((binary_conn [result_frame 0 7 0])
        \<lparr>pkttag := pkttag (binary_conn [result_frame 0 7 0]) + 1,
         proto := \<lparr>cls = BinaryProtocol,
                    socket = \<lparr>inbound = [result_frame 0 7 0],
                               outbound = [16, 0, 0, 0, 0, 0, 0, 0, 3, 0, 0, 0, 1, 0, 0, 0],
                               accepts = [], closed = False\<rparr>,
                    connected = False\<rparr>\<rparr>) =
     (Inr (VInt 7, VDict [''Number'' \<mapsto> VInt 0]),
      \<lparr>proto = \<lparr>cls = BinaryProtocol,
                socket = \<lparr>inbound = [],
                           outbound = [16, 0, 0, 0, 0, 0, 0, 0, 3, 0, 0, 0, 1, 0, 0, 0],
                           accepts = [], closed = False\<rparr>,
                connected = False\<rparr>,
       pkttag = 2, devices = []\<rparr>)"
  by (simp add: eval_defs)

theorem exchange_tags_witness:
  "MuxConnection_init host0 (Some (daemon_sock [result_frame 0 1 0, result_frame 0 2 0]))
      BinaryProtocol = Inr (binary_conn [result_frame 0 1 0, result_frame 0 2 0])
   \<and> pkttag (binary_conn [result_frame 0 1 0, result_frame 0 2 0]) = 1
   \<and> fst (exchange host0 (binary_conn [result_frame 0 1 0, result_frame 0 2 0]) (VInt 3) None
          heap_init) = Inr (VInt 0)
   \<and> outbound (socket (proto (fst (snd (exchange host0
          (binary_conn [result_frame 0 1 0, result_frame 0 2 0]) (VInt 3) None heap_init)))))
        = [16, 0, 0, 0, 0, 0, 0, 0, 3, 0, 0, 0, 1, 0, 0, 0]
   \<and> pkttag (fst (snd (exchange host0
          (binary_conn [result_frame 0 1 0, result_frame 0 2 0]) (VInt 3) None heap_init))) = 2
   \<and> outbound (socket (proto (fst (snd (exchange host0
          (fst (snd (exchange host0
             (binary_conn [result_frame 0 1 0, result_frame 0 2 0]) (VInt 3) None heap_init)))
          (VInt 3) None heap_init)))))
        = [16, 0, 0, 0, 0, 0, 0, 0, 3, 0, 0, 0, 1, 0, 0, 0,
           16, 0, 0, 0, 0, 0, 0, 0, 3, 0, 0, 0, 2, 0, 0, 0]
   \<and> fst (exchange host0 (binary_conn [result_frame 0 7 0]) (VInt 3) None heap_init)
        = Inl (MuxError ''Reply tag mismatch: expected '' [VInt 1, VInt 7])"
proof -
  let ?c0 = "binary_conn [result_frame 0 1 0, result_frame 0 2 0]"
  let ?c7 = "binary_conn [result_frame 0 7 0]"
  let ?x7 = "exchange host0 ?c7 (VInt 3) None heap_init"
  have p: "pkttag ?c7 = 1" by (simp add: binary_conn_def)
  from exchange_tags [of host0 "Some (daemon_sock [result_frame 0 1 0, result_frame 0 2 0])"
      BinaryProtocol ?c0 ?c0 "VInt 3" None heap_init "Inr (VInt 0)" _ heap_init "VInt 0"]
    init_binary_conn exchange_listen_1
  have a: "pkttag ?c0 = 1" "pkttag (fst (snd (exchange host0 ?c0 (VInt 3) None heap_init))) = 2"
    by simp_all
  from exchange_tags [of host0 None BinaryProtocol ?c0 ?c7 "VInt 3" None heap_init
      "fst ?x7" "fst (snd ?x7)" "snd (snd ?x7)" "VInt 0" _ heap_init "VInt 7"
      "VDict [''Number'' \<mapsto> VInt 0]"]
    sendpacket_mismatch_run getreply_mismatch_run p
  have b: "fst ?x7 = Inl (MuxError ''Reply tag mismatch: expected '' [VInt 1, VInt 7])"
    by simp
  show ?thesis
    using a b by (simp add: init_binary_conn exchange_listen_1 exchange_listen_2)
qed

section \<open>Control state and streaming state\<close>

lemma getpacket_connected:
  "connected p \<Longrightarrow>
   getpacket h p = (Inl (MuxError ''Mux is connected, cannot issue control packets'' []), p)"
  by (cases "cls p")
     (simp_all add: getpacket_def BinaryProtocol_getpacket_def PlistProtocol_getpacket_def)

lemma binary_sendpacket_connected:
  "connected p \<Longrightarrow> BinaryProtocol_sendpacket h p req tag payload = (r, p') \<Longrightarrow>
   (\<exists>e. r = Inl e) \<and> p' = p"
  by (cases "pack h (cls p) req payload") (auto simp add: BinaryProtocol_sendpacket_def)

lemma sendpacket_connected:
  assumes "connected p"
  shows "(\<exists>e. fst (sendpacket h p req tag arg hp) = Inl e)
         \<and> fst (snd (sendpacket h p req tag arg hp)) = p"
proof (cases "cls p")
  case BinaryProtocol
  obtain r p' where b: "BinaryProtocol_sendpacket h p req tag
      (VDict (dicts hp (case arg of None \<Rightarrow> BinaryProtocol_sendpacket_default | Some r \<Rightarrow> r))) = (r, p')"
    by (metis surj_pair)
  from binary_sendpacket_connected [OF assms b] b BinaryProtocol show ?thesis
    by (auto simp add: sendpacket_binary)
next
  case PlistProtocol
  show ?thesis
  proof (cases "message_type req")
    case (Inl e)
    with PlistProtocol show ?thesis
      by (simp add: sendpacket_plist PlistProtocol_sendpacket_def Let_def)
  next
    case (Inr mt)
    show ?thesis
      using binary_sendpacket_connected [OF assms, of h TYPE_PLIST tag] PlistProtocol Inr
      by (auto simp add: sendpacket_plist PlistProtocol_sendpacket_def Let_def
            split: sum.splits prod.splits)
  qed
qed

text \<open>
  C5. When the \<^verbatim>\<open>Connect\<close> exchange returns status 0, \<^verbatim>\<open>connect\<close> sets the
  \<^verbatim>\<open>connected\<close> flag of the connection and returns the connection's own socket;
  with any other status it raises \<^verbatim>\<open>MuxError\<close> (connect failed) carrying that
  status. A successful \<^verbatim>\<open>connect\<close> starts from a connection that was not connected
  and leaves one that is; and on a connected protocol object \<^verbatim>\<open>getpacket\<close> and
  \<^verbatim>\<open>sendpacket\<close> raise without touching the socket.
\<close>

theorem connect_transitions:
  "(new_dict hp [''DeviceID'' \<mapsto> devid device, ''PortNumber'' \<mapsto> VInt (port_swapped port)]
        = (payload, hp0)
      \<and> exchange h c (TYPE_CONNECT (cls (proto c))) (Some payload) hp0 = (Inr ret, c', hp') \<longrightarrow>
      (if ret = VInt 0 then
         connect h c device port hp =
           (Inr (socket (proto c')), c'\<lparr>proto := (proto c')\<lparr>connected := True\<rparr>\<rparr>, hp')
       else connect h c device port hp =
           (Inl (MuxError ''Connect failed: error '' [ret]), c', hp')))
   \<and> (connect h c device port hp = (Inr s, c2, hp2) \<longrightarrow>
        connected (proto c2) \<and> s = socket (proto c2) \<and> \<not> connected (proto c))
   \<and> (connected p \<longrightarrow>
        getpacket h p = (Inl (MuxError ''Mux is connected, cannot issue control packets'' []), p))
   \<and> (connected p \<longrightarrow>
        (\<exists>e. fst (sendpacket h p req tag arg hp) = Inl e)
        \<and> fst (snd (sendpacket h p req tag arg hp)) = p)"
proof (intro conjI impI)
  assume "new_dict hp [''DeviceID'' \<mapsto> devid device, ''PortNumber'' \<mapsto> VInt (port_swapped port)]
        = (payload, hp0)
      \<and> exchange h c (TYPE_CONNECT (cls (proto c))) (Some payload) hp0 = (Inr ret, c', hp')"
  then show "if ret = VInt 0 then
         connect h c device port hp =
           (Inr (socket (proto c')), c'\<lparr>proto := (proto c')\<lparr>connected := True\<rparr>\<rparr>, hp')
       else connect h c device port hp =
           (Inl (MuxError ''Connect failed: error '' [ret]), c', hp')"
    by (simp add: connect_def)
next
  assume a: "connect h c device port hp = (Inr s, c2, hp2)"
  obtain payload hp0 where nd: "new_dict hp [''DeviceID'' \<mapsto> devid device,
        ''PortNumber'' \<mapsto> VInt (port_swapped port)] = (payload, hp0)"
    by (metis surj_pair)
  obtain r c' hp' where ex: "exchange h c (TYPE_CONNECT (cls (proto c))) (Some payload) hp0 = (r, c', hp')"
    by (metis prod_cases3)
  from a nd ex have r: "r = Inr (VInt 0)" and s: "s = socket (proto c')"
    and c2: "c2 = c'\<lparr>proto := (proto c')\<lparr>connected := True\<rparr>\<rparr>"
    by (auto simp add: connect_def split: sum.splits if_splits)
  from ex have "\<not> connected (proto c)"
  proof (cases rule: exchange_steps)
    case (send_failed e p1)
    with r show ?thesis by simp
  next
    case (sent p1 rr c2)
    from sendpacket_ok_frame [OF sent(1)] show ?thesis by blast
  qed
  with s c2 show "connected (proto c2)" "s = socket (proto c2)" "\<not> connected (proto c)"
    by simp_all
next
  assume "connected p"
  then show "getpacket h p = (Inl (MuxError ''Mux is connected, cannot issue control packets'' []), p)"
    by (rule getpacket_connected)
next
  assume "connected p"
  then show "\<exists>e. fst (sendpacket h p req tag arg hp) = Inl e"
    using sendpacket_connected by blast
next
  assume "connected p"
  then show "fst (snd (sendpacket h p req tag arg hp)) = p"
    using sendpacket_connected by blast
qed

lemma connect_run_ok:
  "connect host0 (binary_conn [result_frame 0 1 0]) device0 8080 heap_init =
     (Inr \<lparr>inbound = [],
           outbound = [24, 0, 0, 0, 0, 0, 0, 0, 2, 0, 0, 0, 1, 0, 0, 0, 5, 0, 0, 0, 0x1F, 0x90, 0, 0],
           accepts = [], closed = False\<rparr>,
      \<lparr>proto = \<lparr>cls = BinaryProtocol,
                socket = \<lparr>inbound = [],
                           outbound = [24, 0, 0, 0, 0, 0, 0, 0, 2, 0, 0, 0, 1, 0, 0, 0,
                                       5, 0, 0, 0, 0x1F, 0x90, 0, 0],
                           accepts = [], closed = False\<rparr>,
                connected = True\<rparr>,
       pkttag = 2, devices = []\<rparr>,
      \<lparr>dicts = (\<lambda>r. Map.empty)(3 := [''DeviceID'' \<mapsto> VInt 5, ''PortNumber'' \<mapsto> VInt 0x901F]),
       fresh = 4\<rparr>)"
  by (simp add: eval_defs connect_def new_dict_def port_swapped_def device0_def)

lemma connect_run_refused:
  "fst (connect host0 (binary_conn [result_frame 0 1 3]) device0 8080 heap_init) =
     Inl (MuxError ''Connect failed: error '' [VInt 3])"
  by (simp add: eval_defs connect_def new_dict_def port_swapped_def device0_def)

lemma new_dict_run:
  "new_dict heap_init [''DeviceID'' \<mapsto> devid device0, ''PortNumber'' \<mapsto> VInt (port_swapped 8080)] =
     (3, \<lparr>dicts = (\<lambda>r. Map.empty)(3 := [''DeviceID'' \<mapsto> VInt 5, ''PortNumber'' \<mapsto> VInt 0x901F]),
          fresh = 4\<rparr>)"
  by (simp add: new_dict_def heap_init_def port_swapped_def device0_def)

lemma exchange_run_refused:
  "exchange host0 (binary_conn [result_frame 0 1 3])
      (TYPE_CONNECT (cls (proto (binary_conn [result_frame 0 1 3])))) (Some 3)
      \<lparr>dicts = (\<lambda>r. Map.empty)(3 := [''DeviceID'' \<mapsto> VInt 5, ''PortNumber'' \<mapsto> VInt 0x901F]),
       fresh = 4\<rparr> =
     (Inr (VInt 3),
      \<lparr>proto = \<lparr>cls = BinaryProtocol,
                socket = \<lparr>inbound = [],
                           outbound = [24, 0, 0, 0, 0, 0, 0, 0, 2, 0, 0, 0, 1, 0, 0, 0,
                                       5, 0, 0, 0, 0x1F, 0x90, 0, 0],
                           accepts = [], closed = False\<rparr>,
                connected = False\<rparr>,
       pkttag = 2, devices = []\<rparr>,
      \<lparr>dicts = (\<lambda>r. Map.empty)(3 := [''DeviceID'' \<mapsto> VInt 5, ''PortNumber'' \<mapsto> VInt 0x901F]),
       fresh = 4\<rparr>)"
  by (simp add: eval_defs)

theorem connect_transitions_witness:
  "fst (connect host0 (binary_conn [result_frame 0 1 0]) device0 8080 heap_init) =
     Inr (socket (proto (fst (snd (connect host0 (binary_conn [result_frame 0 1 0]) device0 8080
            heap_init)))))
   \<and> outbound (socket (proto (fst (snd (connect host0 (binary_conn [result_frame 0 1 0]) device0
          8080 heap_init))))) =
       [24, 0, 0, 0, 0, 0, 0, 0, 2, 0, 0, 0, 1, 0, 0, 0, 5, 0, 0, 0, 0x1F, 0x90, 0, 0]
   \<and> connected (proto (fst (snd (connect host0 (binary_conn [result_frame 0 1 0]) device0 8080
          heap_init))))
   \<and> fst (getpacket host0 (proto (fst (snd (connect host0 (binary_conn [result_frame 0 1 0])
          device0 8080 heap_init))))) =
       Inl (MuxError ''Mux is connected, cannot issue control packets'' [])
   \<and> fst (connect host0 (binary_conn [result_frame 0 1 3]) device0 8080 heap_init) =
       Inl (MuxError ''Connect failed: error '' [VInt 3])"
proof -
  let ?ok = "connect host0 (binary_conn [result_frame 0 1 0]) device0 8080 heap_init"
  let ?c3 = "binary_conn [result_frame 0 1 3]"
  have ok: "?ok = (fst ?ok, fst (snd ?ok), snd (snd ?ok))" by simp
  have r: "fst ?ok = Inr (socket (proto (fst (snd ?ok))))" by (simp add: connect_run_ok)
  from connect_transitions [where hp = heap_init and device = device0 and port = 8080
      and payload = 3 and h = host0 and c = ?c3 and ret = "VInt 3"]
    new_dict_run exchange_run_refused
  have c: "fst (connect host0 ?c3 device0 8080 heap_init) =
       Inl (MuxError ''Connect failed: error '' [VInt 3])"
    by simp
  from connect_transitions [where hp = heap_init and device = device0 and port = 8080
      and h = host0 and c = "binary_conn [result_frame 0 1 0]"
      and s = "socket (proto (fst (snd ?ok)))" and ?c2.0 = "fst (snd ?ok)"
      and ?hp2.0 = "snd (snd ?ok)" and p = "proto (fst (snd ?ok))"]
    ok r
  have a: "connected (proto (fst (snd ?ok)))"
    and b: "fst (getpacket host0 (proto (fst (snd ?ok)))) =
       Inl (MuxError ''Mux is connected, cannot issue control packets'' [])"
    by simp_all
  show ?thesis using a b c r by (simp add: connect_run_ok)
qed

section \<open>Version negotiation\<close>

lemma listen_binary_version_mismatch:
  assumes c: "cls (proto c) = BinaryProtocol" "\<not> connected (proto c)"
      "\<not> closed (socket (proto c))" "accepts (socket (proto c)) = []"
      "[] \<notin> set (inbound (socket (proto c)))" "0 \<le> pkttag c" "pkttag c < 2 ^ 32"
    and data: "concat (inbound (socket (proto c))) = frame (endian h) ver kind tag payload @ rest"
    and rng: "ver < 2 ^ 32" "kind < 2 ^ 32" "tag < 2 ^ 32" "16 + length payload < 2 ^ 32"
    and ver: "ver \<noteq> 0"
  shows "fst (listen h c hp) =
           Inl (MuxVersionError ''Version mismatch: expected '' [VInt 0, VInt (int ver)])"
proof -
  let ?p1 = "(proto c)\<lparr>socket := (socket (proto c))\<lparr>outbound := outbound (socket (proto c))
         @ frame (endian h) (nat (VERSION (cls (proto c)))) (nat 3) (nat (pkttag c)) []\<rparr>\<rparr>"
  have pk: "pack h (cls (proto c)) (VInt 3) (VDict (dicts hp exchange_default)) = Inr []"
    using c(1) by simp
  have s: "BinaryProtocol_sendpacket h (proto c) (VInt 3) (pkttag c)
             (VDict (dicts hp exchange_default)) = (Inr (), ?p1)"
    using binary_sendpacket_eval [OF c(2,3,4) pk _ _ c(6,7)] by simp
  have q: "\<not> connected ?p1" "\<not> closed (socket ?p1)" "[] \<notin> set (inbound (socket ?p1))"
    "concat (inbound (socket ?p1)) = frame (endian h) ver kind tag payload @ rest"
    "cls ?p1 = BinaryProtocol"
    using c data by simp_all
  from getpacket_frame [OF q(1,2,3,4) rng]
  obtain p' where g: "BinaryProtocol_getpacket h ?p1 =
      (Inl (MuxVersionError ''Version mismatch: expected '' [VInt 0, VInt (int ver)]), p')"
    using ver q(5) by auto
  show ?thesis
    using c(1) s g
    by (simp add: listen_def exchange_def Let_def sendpacket_binary getreply_def
          getpacket_binary)
qed

text \<open>
  C3, amended. The constructor makes its first connection with the binary protocol
  and calls \<^verbatim>\<open>listen\<close>. When that succeeds the version is 0. When it raises anything
  but \<^verbatim>\<open>MuxVersionError\<close> the constructor raises the same and tries nothing else.
  When it raises \<^verbatim>\<open>MuxVersionError\<close> the constructor makes a second connection
  with the property-list protocol and calls \<^verbatim>\<open>listen\<close> once more: success gives
  version 1 and no error, failure is raised to the caller as it is. The first
  \<^verbatim>\<open>listen\<close> raises \<^verbatim>\<open>MuxVersionError\<close> whenever the daemon's answer carries a
  version other than 0.
\<close>

theorem usbmux_init_negotiation:
  "(MuxConnection_init h conn0 BinaryProtocol = Inr l0 \<and> listen h l0 hp = (Inr u, l0', hp1) \<longrightarrow>
      USBMux_init h conn0 conn1 hp =
        (Inr \<lparr>listener = l0', version = 0, protoclass = BinaryProtocol\<rparr>, hp1))
   \<and> (MuxConnection_init h conn0 BinaryProtocol = Inr l0 \<and> listen h l0 hp = (Inl e, l0', hp1)
        \<and> (\<forall>m vs. e \<noteq> MuxVersionError m vs) \<longrightarrow>
      USBMux_init h conn0 conn1 hp = (Inl e, hp1))
   \<and> (MuxConnection_init h conn0 BinaryProtocol = Inr l0
        \<and> listen h l0 hp = (Inl (MuxVersionError m vs), l0', hp1)
        \<and> MuxConnection_init h conn1 PlistProtocol = Inr l1
        \<and> listen h l1 hp1 = (Inr u, l1', hp2) \<longrightarrow>
      USBMux_init h conn0 conn1 hp =
        (Inr \<lparr>listener = l1', version = 1, protoclass = PlistProtocol\<rparr>, hp2))
   \<and> (MuxConnection_init h conn0 BinaryProtocol = Inr l0
        \<and> listen h l0 hp = (Inl (MuxVersionError m vs), l0', hp1)
        \<and> MuxConnection_init h conn1 PlistProtocol = Inr l1
        \<and> listen h l1 hp1 = (Inl e2, l1', hp2) \<longrightarrow>
      USBMux_init h conn0 conn1 hp = (Inl e2, hp2))
   \<and> (MuxConnection_init h (Some s) BinaryProtocol = Inr c
        \<and> \<not> closed s \<and> accepts s = [] \<and> [] \<notin> set (inbound s)
        \<and> concat (inbound s) = frame (endian h) ver kind tag payload @ rest
        \<and> ver < 2 ^ 32 \<and> kind < 2 ^ 32 \<and> tag < 2 ^ 32 \<and> 16 + length payload < 2 ^ 32
        \<and> ver \<noteq> 0 \<longrightarrow>
      fst (listen h c hp) =
        Inl (MuxVersionError ''Version mismatch: expected '' [VInt 0, VInt (int ver)]))"
proof (intro conjI impI)
  assume "MuxConnection_init h conn0 BinaryProtocol = Inr l0 \<and> listen h l0 hp = (Inr u, l0', hp1)"
  then show "USBMux_init h conn0 conn1 hp =
        (Inr \<lparr>listener = l0', version = 0, protoclass = BinaryProtocol\<rparr>, hp1)"
    by (simp add: USBMux_init_def)
next
  assume "MuxConnection_init h conn0 BinaryProtocol = Inr l0 \<and> listen h l0 hp = (Inl e, l0', hp1)
        \<and> (\<forall>m vs. e \<noteq> MuxVersionError m vs)"
  then show "USBMux_init h conn0 conn1 hp = (Inl e, hp1)"
    by (cases e) (simp_all add: USBMux_init_def)
next
  assume "MuxConnection_init h conn0 BinaryProtocol = Inr l0
        \<and> listen h l0 hp = (Inl (MuxVersionError m vs), l0', hp1)
        \<and> MuxConnection_init h conn1 PlistProtocol = Inr l1
        \<and> listen h l1 hp1 = (Inr u, l1', hp2)"
  then show "USBMux_init h conn0 conn1 hp =
        (Inr \<lparr>listener = l1', version = 1, protoclass = PlistProtocol\<rparr>, hp2)"
    by (simp add: USBMux_init_def)
next
  assume "MuxConnection_init h conn0 BinaryProtocol = Inr l0
        \<and> listen h l0 hp = (Inl (MuxVersionError m vs), l0', hp1)
        \<and> MuxConnection_init h conn1 PlistProtocol = Inr l1
        \<and> listen h l1 hp1 = (Inl e2, l1', hp2)"
  then show "USBMux_init h conn0 conn1 hp = (Inl e2, hp2)"
    by (simp add: USBMux_init_def)
next
  assume a: "MuxConnection_init h (Some s) BinaryProtocol = Inr c
        \<and> \<not> closed s \<and> accepts s = [] \<and> [] \<notin> set (inbound s)
        \<and> concat (inbound s) = frame (endian h) ver kind tag payload @ rest
        \<and> ver < 2 ^ 32 \<and> kind < 2 ^ 32 \<and> tag < 2 ^ 32 \<and> 16 + length payload < 2 ^ 32
        \<and> ver \<noteq> 0"
  then have c: "c = \<lparr>proto = \<lparr>cls = BinaryProtocol, socket = s, connected = False\<rparr>,
                     pkttag = 1, devices = []\<rparr>"
    by (auto simp add: MuxConnection_init_def proto_init_def)
  show "fst (listen h c hp) =
        Inl (MuxVersionError ''Version mismatch: expected '' [VInt 0, VInt (int ver)])"
    by (rule listen_binary_version_mismatch [where kind = kind and tag = tag
          and payload = payload and rest = rest]) (use a c in simp_all)
qed

lemmas plist_eval_defs =
  USBMux_init_def listen_def PlistProtocol_sendpacket_def PlistProtocol_getpacket_def
  setitem_def message_type_def TYPE_PLIST_def toy_dumps_def toy_loads_def char_of_def bit_0
  plist_result_frame_def

lemma init_plist_conn:
  "MuxConnection_init host0 (Some (daemon_sock segs)) PlistProtocol = Inr (plist_conn segs)"
  by (simp add: MuxConnection_init_def proto_init_def plist_conn_def host0_def)

lemma listen_runs:
  "fst (listen host0 (binary_conn [result_frame 0 1 0]) heap_init) = Inr ()"
  "fst (listen host0 (binary_conn [plist_result_frame 1]) heap_init) =
     Inl (MuxVersionError ''Version mismatch: expected '' [VInt 0, VInt 1])"
  "snd (snd (listen host0 (binary_conn [plist_result_frame 1]) heap_init)) = heap_init"
  "fst (listen host0 (plist_conn [plist_result_frame 1]) heap_init) = Inr ()"
  "fst (listen host0 (binary_conn []) heap_init) = Inl (MuxError ''socket connection broken'' [])"
  by (simp_all add: eval_defs plist_eval_defs plist_conn_def)

text \<open>
  C3, as stated, fails: when the daemon answers both attempts with version 2, what
  the constructor raises is the \<^verbatim>\<open>MuxVersionError\<close> of the second \<^verbatim>\<open>listen\<close>
  itself.
\<close>

theorem version_error_surfaces_counterexample:
  "fst (USBMux_init host0 (Some (daemon_sock [result_frame 2 1 0]))
          (Some (daemon_sock [plist_result_frame 2])) heap_init) =
     Inl (MuxVersionError ''Version mismatch: expected '' [VInt 1, VInt 2])"
  by (simp add: eval_defs plist_eval_defs)

theorem usbmux_init_negotiation_witness:
  "fst (USBMux_init host0 (Some (daemon_sock [result_frame 0 1 0])) None heap_init) =
     Inr \<lparr>listener = fst (snd (listen host0 (binary_conn [result_frame 0 1 0]) heap_init)),
          version = 0, protoclass = BinaryProtocol\<rparr>
   \<and> fst (listen host0 (binary_conn [plist_result_frame 1]) heap_init) =
       Inl (MuxVersionError ''Version mismatch: expected '' [VInt 0, VInt 1])
   \<and> fst (USBMux_init host0 (Some (daemon_sock [plist_result_frame 1]))
          (Some (daemon_sock [plist_result_frame 1])) heap_init) =
       Inr \<lparr>listener = fst (snd (listen host0 (plist_conn [plist_result_frame 1]) heap_init)),
            version = 1, protoclass = PlistProtocol\<rparr>
   \<and> fst (USBMux_init host0 (Some (daemon_sock []))
          (Some (daemon_sock [plist_result_frame 1])) heap_init) =
       Inl (MuxError ''socket connection broken'' [])"
proof -
  let ?lb = "listen host0 (binary_conn [result_frame 0 1 0]) heap_init"
  let ?lv = "listen host0 (binary_conn [plist_result_frame 1]) heap_init"
  let ?lp = "listen host0 (plist_conn [plist_result_frame 1]) heap_init"
  let ?le = "listen host0 (binary_conn []) heap_init"
  have lb: "?lb = (Inr (), fst (snd ?lb), snd (snd ?lb))"
    using listen_runs(1) by (metis prod.collapse)
  have lv: "?lv = (Inl (MuxVersionError ''Version mismatch: expected '' [VInt 0, VInt 1]),
                   fst (snd ?lv), heap_init)"
    using listen_runs(2,3) by (metis prod.collapse)
  have lp: "?lp = (Inr (), fst (snd ?lp), snd (snd ?lp))"
    using listen_runs(4) by (metis prod.collapse)
  have le: "?le = (Inl (MuxError ''socket connection broken'' []), fst (snd ?le), snd (snd ?le))"
    using listen_runs(5) by (metis prod.collapse)
  from usbmux_init_negotiation [where h = host0 and ?conn0.0 = "Some (daemon_sock [result_frame 0 1 0])"
      and ?conn1.0 = None and hp = heap_init and ?l0.0 = "binary_conn [result_frame 0 1 0]"
      and u = "()" and l0' = "fst (snd ?lb)" and ?hp1.0 = "snd (snd ?lb)"]
    init_binary_conn lb
  have a: "fst (USBMux_init host0 (Some (daemon_sock [result_frame 0 1 0])) None heap_init) =
     Inr \<lparr>listener = fst (snd ?lb), version = 0, protoclass = BinaryProtocol\<rparr>"
    by simp
  from usbmux_init_negotiation [where h = host0 and ?conn0.0 = "Some (daemon_sock [plist_result_frame 1])"
      and ?conn1.0 = "Some (daemon_sock [plist_result_frame 1])" and hp = heap_init
      and ?l0.0 = "binary_conn [plist_result_frame 1]"
      and m = "''Version mismatch: expected ''" and vs = "[VInt 0, VInt 1]"
      and l0' = "fst (snd ?lv)" and ?hp1.0 = heap_init
      and ?l1.0 = "plist_conn [plist_result_frame 1]"
      and u = "()" and l1' = "fst (snd ?lp)" and ?hp2.0 = "snd (snd ?lp)"]
    init_binary_conn init_plist_conn lv lp
  have b: "fst (USBMux_init host0 (Some (daemon_sock [plist_result_frame 1]))
          (Some (daemon_sock [plist_result_frame 1])) heap_init) =
       Inr \<lparr>listener = fst (snd ?lp), version = 1, protoclass = PlistProtocol\<rparr>"
    by simp
  from usbmux_init_negotiation [where h = host0 and ?conn0.0 = "Some (daemon_sock [])"
      and ?conn1.0 = "Some (daemon_sock [plist_result_frame 1])" and hp = heap_init
      and ?l0.0 = "binary_conn []" and e = "MuxError ''socket connection broken'' []"
      and l0' = "fst (snd ?le)" and ?hp1.0 = "snd (snd ?le)"]
    init_binary_conn le
  have c: "fst (USBMux_init host0 (Some (daemon_sock []))
          (Some (daemon_sock [plist_result_frame 1])) heap_init) =
       Inl (MuxError ''socket connection broken'' [])"
    by simp
  show ?thesis using a b c listen_runs(2) by simp
qed

section \<open>The relay's handler\<close>

lemma handle_connection_failed:
  "fst (stream_setup h rp d (store w)) = Inl e \<Longrightarrow>
   handle_connection h rp d cs w =
     w\<lparr>printed := printed w @ [CouldNotConnect rp e], clients := (clients w)(cs := Closed),
       store := snd (stream_setup h rp d (store w))\<rparr>"
  by (cases "stream_setup h rp d (store w)") (simp add: handle_connection_def)

lemma handle_connection_others:
  "other \<noteq> cs \<Longrightarrow> clients (handle_connection h rp d cs w) other = clients w other"
  by (cases "stream_setup h rp d (store w)")
     (auto simp add: handle_connection_def split: sum.splits)

lemma handle_connection_handled:
  "clients (handle_connection h rp d cs w) cs \<noteq> Accepted"
  by (cases "stream_setup h rp d (store w)")
     (auto simp add: handle_connection_def split: sum.splits)

lemma handle_connection_printed:
  "set (printed w) \<subseteq> set (printed (handle_connection h rp d cs w))"
  by (cases "stream_setup h rp d (store w)")
     (auto simp add: handle_connection_def split: sum.splits)

lemma serve_forever_append:
  "serve_forever h rp w (xs @ ys) = serve_forever h rp (serve_forever h rp w xs) ys"
  by (induction xs arbitrary: w) auto

lemma serve_forever_others:
  "n \<notin> fst ` set accepted \<Longrightarrow> clients (serve_forever h rp w accepted) n = clients w n"
  by (induction accepted arbitrary: w) (auto simp add: handle_connection_others)

lemma serve_forever_printed:
  "set (printed w) \<subseteq> set (printed (serve_forever h rp w accepted))"
proof (induction accepted arbitrary: w)
  case Nil
  then show ?case by simp
next
  case (Cons a accepted)
  obtain cs d where a: "a = (cs, d)" by (cases a)
  from Cons [of "handle_connection h rp d cs w"] handle_connection_printed [of w h rp d cs]
  show ?case unfolding a by auto
qed

lemma serve_forever_keeps_handled:
  "clients w n \<noteq> Accepted \<Longrightarrow> clients (serve_forever h rp w accepted) n \<noteq> Accepted"
proof (induction accepted arbitrary: w)
  case Nil
  then show ?case by simp
next
  case (Cons a accepted)
  obtain cs d where a: "a = (cs, d)" by (cases a)
  have "clients (handle_connection h rp d cs w) n \<noteq> Accepted"
    using Cons.prems handle_connection_handled [of h rp d cs w]
      handle_connection_others [of n cs h rp d w] by (cases "n = cs") auto
  from Cons.IH [OF this] show ?case unfolding a by simp
qed

lemma serve_forever_handled:
  "x \<in> set accepted \<Longrightarrow> clients (serve_forever h rp w accepted) (fst x) \<noteq> Accepted"
proof (induction accepted arbitrary: w)
  case Nil
  then show ?case by simp
next
  case (Cons a accepted)
  obtain cs d where a: "a = (cs, d)" by (cases a)
  show ?case
  proof (cases "x = a")
    case True
    with a serve_forever_keeps_handled [OF handle_connection_handled [of h rp d cs w]]
    show ?thesis by simp
  next
    case False
    with Cons.prems have "x \<in> set accepted" by simp
    from Cons.IH [OF this] show ?thesis unfolding a by simp
  qed
qed

text \<open>
  C9. When the stream setup of an accepted connection raises, \<^verbatim>\<open>handle_connection\<close>
  prints the failure, closes that local socket and returns (it has no way to raise:
  whatever the setup raises is caught). No other local socket changes state. In the
  accept loop the handlers of all connections accepted later still run, whatever any
  handler met: the failed connection ends closed with its line printed, and every
  later one ends closed or forwarding.
\<close>

theorem relay_setup_failure_isolated:
  "(fst (stream_setup h rp d (store w)) = Inl e \<longrightarrow>
      handle_connection h rp d cs w =
        w\<lparr>printed := printed w @ [CouldNotConnect rp e], clients := (clients w)(cs := Closed),
          store := snd (stream_setup h rp d (store w))\<rparr>)
   \<and> (other \<noteq> cs \<longrightarrow> clients (handle_connection h rp d cs w) other = clients w other)
   \<and> (fst (stream_setup h rp d (store (serve_forever h rp w before))) = Inl e
        \<and> cs \<notin> fst ` set after \<longrightarrow>
        clients (serve_forever h rp w (before @ (cs, d) # after)) cs = Closed
        \<and> CouldNotConnect rp e \<in> set (printed (serve_forever h rp w (before @ (cs, d) # after)))
        \<and> (\<forall>x \<in> set after.
              clients (serve_forever h rp w (before @ (cs, d) # after)) (fst x) \<noteq> Accepted))"
proof (intro conjI impI ballI)
  assume "fst (stream_setup h rp d (store w)) = Inl e"
  then show "handle_connection h rp d cs w =
        w\<lparr>printed := printed w @ [CouldNotConnect rp e], clients := (clients w)(cs := Closed),
          store := snd (stream_setup h rp d (store w))\<rparr>"
    by (rule handle_connection_failed)
next
  assume "other \<noteq> cs"
  then show "clients (handle_connection h rp d cs w) other = clients w other"
    by (rule handle_connection_others)
next
  let ?w1 = "serve_forever h rp w before"
  let ?w2 = "handle_connection h rp d cs ?w1"
  let ?end = "serve_forever h rp w (before @ (cs, d) # after)"
  have e: "?end = serve_forever h rp ?w2 after" by (simp add: serve_forever_append)
  {
    assume a: "fst (stream_setup h rp d (store ?w1)) = Inl e \<and> cs \<notin> fst ` set after"
    then have w2: "clients ?w2 cs = Closed" "CouldNotConnect rp e \<in> set (printed ?w2)"
      by (simp_all add: handle_connection_failed)
    from a w2(1) show "clients ?end cs = Closed" by (simp add: e serve_forever_others)
    from w2(2) serve_forever_printed [of ?w2 h rp after]
    show "CouldNotConnect rp e \<in> set (printed ?end)" unfolding e by blast
  }
  fix x assume "x \<in> set after"
  then show "clients ?end (fst x) \<noteq> Accepted" unfolding e by (rule serve_forever_handled)
qed


lemma setup_down:
  "stream_setup host0 22 daemon_down hp = (Inl OSError, hp)"
  by (simp add: stream_setup_def daemon_down_def USBMux_init_def MuxConnection_init_def)

lemma setup_no_device:
  "stream_setup host0 22 daemon_no_device hp = (Inl IndexError, hp)"
  by (simp add: stream_setup_def daemon_no_device_def USBMux_process_def process_def
        eval_defs plist_eval_defs)

lemma setup_ready:
  "stream_setup host0 22 daemon_ready heap_init =
     (Inr \<lparr>inbound = [],
           outbound = [24, 0, 0, 0, 0, 0, 0, 0, 2, 0, 0, 0, 1, 0, 0, 0, 5, 0, 0, 0, 0, 0x16, 0, 0],
           accepts = [], closed = False\<rparr>,
      \<lparr>dicts = (\<lambda>r. Map.empty)(3 := [''DeviceID'' \<mapsto> VInt 5, ''PortNumber'' \<mapsto> VInt 0x1600]),
       fresh = 4\<rparr>)"
  by (simp add: stream_setup_def daemon_ready_def attach_frame_def USBMux_process_def process_def
        USBMux_connect_def connect_def new_dict_def port_swapped_def
        processpacket_def dispatch_def eval_defs plist_eval_defs bytes_decode_def)


theorem relay_setup_failure_isolated_witness:
  "fst (stream_setup host0 22 daemon_down
          (store (serve_forever host0 22 relay0 [(1, daemon_ready)]))) = Inl OSError
   \<and> clients (serve_forever host0 22 relay0
          [(1, daemon_ready), (2, daemon_down), (3, daemon_no_device)]) 2 = Closed
   \<and> clients (serve_forever host0 22 relay0
          [(1, daemon_ready), (2, daemon_down), (3, daemon_no_device)]) 3 = Closed
   \<and> clients (serve_forever host0 22 relay0
          [(1, daemon_ready), (2, daemon_down), (3, daemon_no_device)]) 1 =
       Forwarding \<lparr>inbound = [],
           outbound = [24, 0, 0, 0, 0, 0, 0, 0, 2, 0, 0, 0, 1, 0, 0, 0, 5, 0, 0, 0, 0, 0x16, 0, 0],
           accepts = [], closed = False\<rparr>
   \<and> printed (serve_forever host0 22 relay0
          [(1, daemon_ready), (2, daemon_down), (3, daemon_no_device)]) =
       [CouldNotConnect 22 OSError, CouldNotConnect 22 IndexError]"
proof -
  let ?w1 = "serve_forever host0 22 relay0 [(1, daemon_ready)]"
  let ?end = "serve_forever host0 22 relay0
          [(1, daemon_ready), (2, daemon_down), (3, daemon_no_device)]"
  have f: "fst (stream_setup host0 22 daemon_down (store ?w1)) = Inl OSError"
    by (simp add: setup_down)
  have n: "(2::nat) \<notin> fst ` set [(3, daemon_no_device)]" by simp
  from relay_setup_failure_isolated [where h = host0 and rp = 22 and d = daemon_down
      and w = relay0 and before = "[(1, daemon_ready)]" and cs = 2
      and after = "[(3, daemon_no_device)]" and e = OSError] f n
  have a: "clients ?end 2 = Closed" "CouldNotConnect 22 OSError \<in> set (printed ?end)"
    by simp_all
  have b: "clients ?end 3 = Closed"
    "clients ?end 1 = Forwarding \<lparr>inbound = [],
           outbound = [24, 0, 0, 0, 0, 0, 0, 0, 2, 0, 0, 0, 1, 0, 0, 0, 5, 0, 0, 0, 0, 0x16, 0, 0],
           accepts = [], closed = False\<rparr>"
    "printed ?end = [CouldNotConnect 22 OSError, CouldNotConnect 22 IndexError]"
    by (simp_all add: handle_connection_def relay0_def setup_ready setup_down setup_no_device)
  show ?thesis using f a b by simp
qed

end
